theory Spec2Isabelle
  imports Main "HOL-Library.AList"
begin

section \<open>Mode selection (thread.ts, lines 227--249)\<close>

text \<open>
  The resolved network options are computed by \<^verbatim>\<open>resolveNetworkOptions\<close>, which is not
  part of the sources at hand; its result is an input of the model.
\<close>

record network_options =
  port :: int
  hostname :: string
  mdns :: bool

text \<open>
  \<^verbatim>\<open>Array.prototype.includes\<close> on \<^verbatim>\<open>process.argv\<close>: a left-to-right scan that compares
  whole elements.
\<close>

fun array_includes :: "string list \<Rightarrow> string \<Rightarrow> bool" where
  "array_includes [] s = False"
| "array_includes (a # as) s = (if a = s then True else array_includes as s)"

text \<open>
  \<^verbatim>\<open>
  const shouldStartServer =
    process.argv.includes("--port") ||
    process.argv.includes("--hostname") ||
    process.argv.includes("--mdns") ||
    networkOpts.mdns ||
    networkOpts.port !== 0 ||
    networkOpts.hostname !== "127.0.0.1"
  \<close>
\<close>

definition shouldStartServer :: "string list \<Rightarrow> network_options \<Rightarrow> bool" where
  "shouldStartServer argv networkOpts =
     (array_includes argv ''--port'' \<or>
      array_includes argv ''--hostname'' \<or>
      array_includes argv ''--mdns'' \<or>
      mdns networkOpts \<or>
      port networkOpts \<noteq> 0 \<or>
      hostname networkOpts \<noteq> ''127.0.0.1'')"

text \<open>
  The two branches of \<^verbatim>\<open>if (shouldStartServer) { ... } else { ... }\<close>: the first asks the
  worker to bind a listener, the second talks to the worker over the channel only.
\<close>

datatype mode = Direct | Server

definition selected_mode :: "string list \<Rightarrow> network_options \<Rightarrow> mode" where
  "selected_mode argv networkOpts =
     (if shouldStartServer argv networkOpts then Server else Direct)"

text \<open>
  A networking flag on the command line, in the words of the specification and of the
  comment of lines 156--160 (``port or hostname explicitly set in CLI'', ``triggered by
  \<^verbatim>\<open>--port\<close>, \<^verbatim>\<open>--hostname\<close>, \<^verbatim>\<open>--mdns\<close> flags''), for comparison with
  \<open>shouldStartServer\<close>. An element names a flag when it is the flag, its value
  following in the next element, or the flag and its value joined by \<^verbatim>\<open>=\<close>; the
  boolean flag also has its negated form. The elements after a lone \<^verbatim>\<open>--\<close> are
  operands (index.ts sets \<^verbatim>\<open>populate--\<close>), not flags.
\<close>

definition names_flag :: "string \<Rightarrow> string \<Rightarrow> bool" where
  "names_flag flag tok = (tok = flag \<or> take (Suc (length flag)) tok = flag @ ''='')"

definition explicit_flag :: "string list \<Rightarrow> bool" where
  "explicit_flag argv =
     (\<exists>tok \<in> set (takeWhile (\<lambda>t. t \<noteq> ''--'') argv).
        names_flag ''--port'' tok \<or> names_flag ''--hostname'' tok \<or>
        names_flag ''--mdns'' tok \<or> tok = ''--no-mdns'')"

section \<open>Worker location (thread.ts, lines 107--116)\<close>

type_synonym path = string

text \<open>
  \<^verbatim>\<open>
  const workerPath = await iife(async () => {
    if (typeof OPENCODE_WORKER_PATH !== "undefined") return OPENCODE_WORKER_PATH
    if (await Bun.file(distWorker).exists()) return distWorker
    return localWorker
  })
  \<close>
  The build-time constant is \<open>None\<close> when it was not injected. The file system is the set
  of paths for which \<^verbatim>\<open>Bun.file(p).exists()\<close> answers true.
\<close>

definition workerPath :: "path option \<Rightarrow> path set \<Rightarrow> path \<Rightarrow> path \<Rightarrow> path" where
  "workerPath injected disk distWorker localWorker =
     (case injected of
        Some p \<Rightarrow> p
      | None \<Rightarrow> if distWorker \<in> disk then distWorker else localWorker)"

text \<open>
  The rule in the words of the specification, for comparison with \<open>workerPath\<close>: the
  candidates in their order, and the first one that exists.
\<close>

definition candidates :: "path option \<Rightarrow> path \<Rightarrow> path \<Rightarrow> path list" where
  "candidates injected distWorker localWorker =
     (case injected of Some p \<Rightarrow> [p] | None \<Rightarrow> []) @ [distWorker, localWorker]"

fun first_existing :: "path set \<Rightarrow> path list \<Rightarrow> path option" where
  "first_existing disk [] = None"
| "first_existing disk (p # ps) = (if p \<in> disk then Some p else first_existing disk ps)"

section \<open>The fetch bridge (thread.ts, lines 22--38)\<close>

text \<open>
  The platform \<^verbatim>\<open>Request\<close> built by \<^verbatim>\<open>new Request(input, init)\<close>: its URL, its method, the
  entries of its header set, and its body, which is \<^verbatim>\<open>null\<close> (\<open>None\<close>) or a stream
  holding a text.
\<close>

record request =
  req_url :: string
  req_method :: string
  req_headers :: "(string \<times> string) list"
  req_body :: "string option"

text \<open>\<^verbatim>\<open>request.text()\<close>: the text of the body, empty for a request without a body.\<close>

definition request_text :: "request \<Rightarrow> string" where
  "request_text r = (case req_body r of None \<Rightarrow> [] | Some t \<Rightarrow> t)"

text \<open>
  The payload of the call, \<^verbatim>\<open>{ url, method, headers, body }\<close>. An object is a list of
  its properties in insertion order; a property holding \<^verbatim>\<open>undefined\<close> is \<open>None\<close>.
\<close>

record fetch_input =
  url :: string
  "method" :: string
  headers :: "(string \<times> string) list"
  body :: "string option"

text \<open>The result of the call, \<^verbatim>\<open>{ body, status, headers }\<close>.\<close>

record fetch_output =
  out_body :: string
  out_status :: int
  out_headers :: "(string \<times> string) list"

text \<open>
  The platform \<^verbatim>\<open>Response\<close>: its body text, its status and the entries of its header
  set, the names written as they were given (the platform reads them without regard to
  case).
\<close>

record response =
  res_body :: string
  res_status :: int
  res_headers :: "(string \<times> string) list"

text \<open>
  \<^verbatim>\<open>new Response(body, { status, headers })\<close>: the constructor throws a
  \<^verbatim>\<open>RangeError\<close> unless the status is 101 or lies between 200 and 599; otherwise the
  response holds what the constructor was given.
\<close>

definition valid_status :: "int \<Rightarrow> bool" where
  "valid_status s = (s = 101 \<or> (200 \<le> s \<and> s \<le> 599))"

definition new_Response ::
  "string \<Rightarrow> int \<Rightarrow> (string \<times> string) list \<Rightarrow> string + response" where
  "new_Response b s h =
     (if valid_status s
      then Inr \<lparr>res_body = b, res_status = s, res_headers = h\<rparr>
      else Inl ''RangeError'')"

text \<open>
  \<^verbatim>\<open>Object.fromEntries\<close>: the entries are written into an empty object one after the other,
  a later entry replacing the value of an earlier one of the same name (the order of the
  properties is that of insertion, as it is for names that are not array indices).
\<close>

definition fromEntries :: "(string \<times> string) list \<Rightarrow> (string \<times> string) list" where
  "fromEntries es = foldl (\<lambda>obj (k, v). AList.update k v obj) [] es"

datatype 'a outcome = Fulfilled 'a | Rejected string

text \<open>
  \<^verbatim>\<open>
  const request = new Request(input, init)
  const body = request.body ? await request.text() : undefined
  const result = await client.call("fetch", {
    url: request.url,
    method: request.method,
    headers: Object.fromEntries(request.headers.entries()),
    body,
  })
  \<close>
  The first half of \<^verbatim>\<open>fn\<close>: the method and the payload handed to \<^verbatim>\<open>client.call\<close>.
\<close>

definition fetch_call :: "request \<Rightarrow> string \<times> fetch_input" where
  "fetch_call request =
     (let body = (if req_body request \<noteq> None then Some (request_text request) else None)
      in (''fetch'',
          \<lparr>url = req_url request,
           method = req_method request,
           headers = fromEntries (req_headers request),
           body = body\<rparr>))"

text \<open>
  \<^verbatim>\<open>
  return new Response(result.body, {
    status: result.status,
    headers: result.headers,
  })
  \<close>
  The second half: the response built from the result of the call, or the error the
  constructor throws.
\<close>

definition fetch_response :: "fetch_output \<Rightarrow> string + response" where
  "fetch_response result =
     new_Response (out_body result) (out_status result) (out_headers result)"

text \<open>
  \<^verbatim>\<open>createWorkerFetch(client)\<close>. The client is the function that gives, for a method and a
  payload, how the call settles; the channel behind it (\<^verbatim>\<open>util/rpc\<close>) is not part of
  the sources at hand. The result is the call that was issued and how \<^verbatim>\<open>fn\<close> settles:
  a rejected call rejects \<^verbatim>\<open>fn\<close>, and so does an error thrown while the response is
  built. While the call has not settled \<^verbatim>\<open>fn\<close> has not either; that case has no value
  here.
\<close>

definition createWorkerFetch ::
  "(string \<Rightarrow> fetch_input \<Rightarrow> fetch_output outcome) \<Rightarrow> request
     \<Rightarrow> (string \<times> fetch_input) \<times> response outcome" where
  "createWorkerFetch client request =
     (let c = fetch_call request
      in (c, case client (fst c) (snd c) of
               Fulfilled result \<Rightarrow>
                 (case fetch_response result of
                    Inr r \<Rightarrow> Fulfilled r
                  | Inl e \<Rightarrow> Rejected e)
             | Rejected e \<Rightarrow> Rejected e))"

section \<open>Copying the selection (util/selection.ts)\<close>

text \<open>
  The renderer as \<open>Selection.copy\<close> sees it: \<^verbatim>\<open>getSelection()\<close> gives \<^verbatim>\<open>null\<close> or a
  selection, of which \<^verbatim>\<open>getSelectedText()\<close> gives the text.
\<close>

record selection =
  getSelectedText :: string

record renderer =
  getSelection :: "selection option"

datatype variant = Info | Success | Warning | Error

datatype ui_action =
    ClipboardCopy string
  | ClearSelection
  | ToastShow string variant
  | ToastError string

text \<open>
  \<^verbatim>\<open>
  const text = renderer.getSelection()?.getSelectedText()
  if (!text) return false
  Clipboard.copy(text).then(...).catch(toast.error)
  renderer.clearSelection()
  return true
  \<close>
  The result is the returned value and the calls made on the clipboard, the toast and
  the renderer, in order. \<^verbatim>\<open>!text\<close> holds for \<^verbatim>\<open>undefined\<close> and for the empty string.
\<close>

definition copy :: "renderer \<Rightarrow> bool \<times> ui_action list" where
  "copy renderer =
     (let text = map_option getSelectedText (getSelection renderer)
      in case text of
           None \<Rightarrow> (False, [])
         | Some t \<Rightarrow>
             if t = [] then (False, [])
             else (True, [ClipboardCopy t, ClearSelection]))"

text \<open>
  The handlers on the promise of \<^verbatim>\<open>Clipboard.copy(text)\<close>, run when the write settles:
  \<^verbatim>\<open>.then(() => toast.show({ message: "Copied to clipboard", variant: "info" }))\<close> and
  \<^verbatim>\<open>.catch(toast.error)\<close>.
\<close>

definition copy_settled :: "unit outcome \<Rightarrow> ui_action list" where
  "copy_settled out =
     (case out of
        Fulfilled _ \<Rightarrow> [ToastShow ''Copied to clipboard'' Info]
      | Rejected e \<Rightarrow> [ToastError e])"

section \<open>The command handler (thread.ts, lines 102--274)\<close>

text \<open>The parsed command line options the handler reads.\<close>

record args =
  project :: "string option"
  model :: "string option"
  continue :: "bool option"
  session :: "string option"
  prompt :: "string option"
  agent :: "string option"

text \<open>
  What the handler reads from the platform: \<^verbatim>\<open>process.argv\<close>, \<^verbatim>\<open>process.env.PWD\<close>,
  \<^verbatim>\<open>process.cwd()\<close>, the entries of \<^verbatim>\<open>process.env\<close>, the build-time constant, the two
  worker URLs, the files that exist, the directories \<^verbatim>\<open>process.chdir\<close> accepts,
  \<^verbatim>\<open>path.resolve\<close>, \<^verbatim>\<open>process.stdin.isTTY\<close>, the text of the standard input, and the
  result of \<^verbatim>\<open>resolveNetworkOptions(args)\<close>.
\<close>

record environment =
  process_argv :: "string list"
  env_PWD :: "string option"
  process_cwd :: path
  process_env :: "(string \<times> string option) list"
  OPENCODE_WORKER_PATH :: "path option"
  localWorker :: path
  distWorker :: path
  disk :: "path set"
  directories :: "path set"
  path_resolve :: "path \<Rightarrow> string \<Rightarrow> path"
  stdin_isTTY :: bool
  stdin_text :: string
  resolved_network_options :: network_options

text \<open>The payloads and results of the calls made through the client.\<close>

datatype payload =
    FetchInput fetch_input
  | ServerInput network_options
  | CheckUpgradeInput path
  | Undefined

datatype result =
    FetchOutput fetch_output
  | ServerOutput string
  | Void

datatype fetch_impl = WorkerFetch

datatype event_source = WorkerEvents

text \<open>The argument of \<^verbatim>\<open>tui\<close>; its \<^verbatim>\<open>onExit\<close> is always the same function (see \<open>step\<close>).\<close>

record tui_input =
  tui_url :: string
  tui_fetch :: "fetch_impl option"
  tui_events :: "event_source option"
  tui_continue :: "bool option"
  tui_sessionID :: "string option"
  tui_agent :: "string option"
  tui_model :: "string option"
  tui_prompt :: "string option"

text \<open>
  What the process does, in the order it does it. Nothing in thread.ts ends the worker
  or creates another one, so there is no action for that.
\<close>

datatype action =
    FileExists path
  | Chdir path
  | UIError string
  | NewWorker path "(string \<times> string) list"
  | WorkerOnError
  | ProcessOn string
  | StdinText
  | RpcCall string payload
  | RpcSettled nat "result outcome"
  | Tui tui_input
  | SetTimeout nat
  | LogError string
  | Unguard
  | Resolve
  | OnExitRejected string
  | Return
  | Throw string

text \<open>
  The places where the code waits for a call to settle, each with what the rest of the
  function needs: line 242 (\<^verbatim>\<open>await client.call("server", networkOpts)\<close>), line 145
  (\<^verbatim>\<open>await client.call("reload", undefined)\<close>), line 264 under app.tsx line 181
  (\<^verbatim>\<open>await client.call("shutdown", undefined)\<close>), and line 270
  (\<^verbatim>\<open>client.call("checkUpgrade", ...).catch(() => {})\<close>).
\<close>

datatype cont =
    AwaitServer args "string option" path
  | AwaitReload
  | AwaitShutdown
  | CatchCheckUpgrade

text \<open>
  The listeners given to \<^verbatim>\<open>process.on\<close>: the ones that log their argument
  (\<^verbatim>\<open>Log.Default.error\<close>), and the one of line 143 that asks for a reload.
\<close>

datatype listener = LogListener | ReloadListener

text \<open>
  The state of the process: what it has done, the registered listeners, the number of
  calls issued, the calls not yet settled with what waits for them, the directory of the
  timer callback while the timer is set, whether the TUI is up, and whether the handler
  has returned or thrown (after which index.ts ends the process with \<^verbatim>\<open>process.exit()\<close>).
\<close>

record runtime =
  trace :: "action list"
  listeners :: "(string \<times> listener) list"
  issued :: nat
  pending :: "(nat \<times> cont) list"
  timer :: "path option"
  tui_up :: bool
  ended :: bool

text \<open>
  \<^verbatim>\<open>client.call(method, input)\<close>: the call goes out and stays pending until the worker
  answers. Calls are numbered in the order they are issued.
\<close>

definition client_call :: "string \<Rightarrow> payload \<Rightarrow> cont \<Rightarrow> runtime \<Rightarrow> runtime" where
  "client_call m input k s =
     s\<lparr>trace := trace s @ [RpcCall m input],
       pending := pending s @ [(issued s, k)],
       issued := Suc (issued s)\<rparr>"

fun run_listener :: "listener \<Rightarrow> string \<Rightarrow> runtime \<Rightarrow> runtime" where
  "run_listener LogListener e s = s\<lparr>trace := trace s @ [LogError e]\<rparr>"
| "run_listener ReloadListener e s = client_call ''reload'' Undefined AwaitReload s"

text \<open>An event of the process runs the listeners registered under its name, in order.\<close>

definition emit :: "string \<Rightarrow> string \<Rightarrow> runtime \<Rightarrow> runtime" where
  "emit name e s =
     foldl (\<lambda>s' (n, l). if n = name then run_listener l e s' else s') s (listeners s)"

text \<open>
  Lines 252--273: the TUI is started, then the timer is set, then the handler waits for
  the promise of \<^verbatim>\<open>tui\<close>.
\<close>

definition launch ::
  "string \<Rightarrow> fetch_impl option \<Rightarrow> event_source option \<Rightarrow> args \<Rightarrow> string option \<Rightarrow> path
     \<Rightarrow> runtime \<Rightarrow> runtime" where
  "launch u customFetch events a p cwd s =
     s\<lparr>trace := trace s @
         [Tui \<lparr>tui_url = u, tui_fetch = customFetch, tui_events = events,
               tui_continue = continue a, tui_sessionID = session a,
               tui_agent = agent a, tui_model = model a, tui_prompt = p\<rparr>,
          SetTimeout 1000],
       timer := Some cwd,
       tui_up := True\<rparr>"

text \<open>
  A settled call resumes what waited for it.
  \<^item> \<^verbatim>\<open>server\<close> (lines 242--243 and on): with the URL of the result the handler goes on
    to start the TUI, without custom fetch and events; a rejection is thrown by the
    handler. A result of another shape is excluded by the type of \<^verbatim>\<open>client.call\<close>; the
    model leaves the state as it is there.
  \<^item> \<^verbatim>\<open>reload\<close> (line 145): nothing follows the call; a rejection rejects the promise of
    the listener, which nobody holds, so the \<^verbatim>\<open>unhandledRejection\<close> listeners run.
  \<^item> \<^verbatim>\<open>shutdown\<close> (line 264, awaited at app.tsx line 181): then \<^verbatim>\<open>resolve()\<close> of line
    182 settles the promise of \<^verbatim>\<open>tui\<close> and the handler, which waits for it at line 273,
    returns. A rejection leaves \<^verbatim>\<open>resolve()\<close> unreached and goes to the caller of
    \<^verbatim>\<open>onExit\<close>.
  \<^item> \<^verbatim>\<open>checkUpgrade\<close> (line 270): \<^verbatim>\<open>.catch(() => {})\<close>, so nothing follows either way.
\<close>

fun resume :: "cont \<Rightarrow> result outcome \<Rightarrow> runtime \<Rightarrow> runtime" where
  "resume (AwaitServer a p cwd) (Fulfilled (ServerOutput u)) s = launch u None None a p cwd s"
| "resume (AwaitServer a p cwd) (Fulfilled (FetchOutput r)) s = s"
| "resume (AwaitServer a p cwd) (Fulfilled Void) s = s"
| "resume (AwaitServer a p cwd) (Rejected e) s = s\<lparr>trace := trace s @ [Throw e], ended := True\<rparr>"
| "resume AwaitReload (Fulfilled _) s = s"
| "resume AwaitReload (Rejected e) s = emit ''unhandledRejection'' e s"
| "resume AwaitShutdown (Fulfilled _) s = s\<lparr>trace := trace s @ [Resolve, Return], ended := True\<rparr>"
| "resume AwaitShutdown (Rejected e) s = s\<lparr>trace := trace s @ [OnExitRejected e]\<rparr>"
| "resume CatchCheckUpgrade _ s = s"

text \<open>
  What can happen to the running process: the signal, the timer running out, the TUI
  taking its exit path (\<^verbatim>\<open>onExit\<close> of app.tsx, lines 179--183), a call settling, and an
  error event of the worker.
\<close>

datatype event =
    SIGUSR2
  | Timeout
  | Exit
  | Settle nat "result outcome"
  | WorkerError string

text \<open>
  One event. Once the handler has returned or thrown the process is over and nothing
  happens any more.
  \<^item> The signal runs the listeners of \<^verbatim>\<open>SIGUSR2\<close> (lines 143--146).
  \<^item> The timer runs its callback once (lines 269--271).
  \<^item> The exit path is \<^verbatim>\<open>unguard?.()\<close>, then \<^verbatim>\<open>await input.onExit?.()\<close>, which is the
    \<^verbatim>\<open>shutdown\<close> call of lines 263--265; it exists once \<^verbatim>\<open>tui\<close> has been called.
  \<^item> A settlement is for a pending call; any other is dropped.
  \<^item> An error event of the worker is logged (lines 131--133).
\<close>

definition step :: "runtime \<Rightarrow> event \<Rightarrow> runtime" where
  "step s ev =
     (if ended s then s
      else case ev of
        SIGUSR2 \<Rightarrow> emit ''SIGUSR2'' [] s
      | Timeout \<Rightarrow>
          (case timer s of
             None \<Rightarrow> s
           | Some directory \<Rightarrow>
               client_call ''checkUpgrade'' (CheckUpgradeInput directory) CatchCheckUpgrade
                 (s\<lparr>timer := None\<rparr>))
      | Exit \<Rightarrow>
          if tui_up s
          then client_call ''shutdown'' Undefined AwaitShutdown (s\<lparr>trace := trace s @ [Unguard]\<rparr>)
          else s
      | Settle k out \<Rightarrow>
          (case map_of (pending s) k of
             None \<Rightarrow> s
           | Some c \<Rightarrow>
               resume c out
                 (s\<lparr>trace := trace s @ [RpcSettled k out],
                    pending := AList.delete k (pending s)\<rparr>))
      | WorkerError e \<Rightarrow> s\<lparr>trace := trace s @ [LogError e]\<rparr>)"

definition run :: "runtime \<Rightarrow> event list \<Rightarrow> runtime" where
  "run s evs = foldl step s evs"

text \<open>
  \<^verbatim>\<open>Object.entries(process.env).filter((entry) => entry[1] !== undefined)\<close>
\<close>

fun defined_entries :: "(string \<times> string option) list \<Rightarrow> (string \<times> string) list" where
  "defined_entries [] = []"
| "defined_entries ((k, None) # es) = defined_entries es"
| "defined_entries ((k, Some v) # es) = (k, v) # defined_entries es"

text \<open>
  Lines 104--105:
  \<^verbatim>\<open>
  const baseCwd = process.env.PWD ?? process.cwd()
  const cwd = args.project ? path.resolve(baseCwd, args.project) : process.cwd()
  \<close>
\<close>

definition handler_cwd :: "environment \<Rightarrow> args \<Rightarrow> path" where
  "handler_cwd env a =
     (let baseCwd = (case env_PWD env of Some d \<Rightarrow> d | None \<Rightarrow> process_cwd env)
      in case project a of
           None \<Rightarrow> process_cwd env
         | Some p \<Rightarrow> if p = [] then process_cwd env else path_resolve env baseCwd p)"

text \<open>
  Lines 150--154:
  \<^verbatim>\<open>
  const piped = !process.stdin.isTTY ? await Bun.stdin.text() : undefined
  if (!args.prompt) return piped
  return piped ? piped + "\n" + args.prompt : args.prompt
  \<close>
\<close>

definition handler_prompt :: "environment \<Rightarrow> args \<Rightarrow> string option" where
  "handler_prompt env a =
     (let piped = (if \<not> stdin_isTTY env then Some (stdin_text env) else None)
      in case prompt a of
           None \<Rightarrow> piped
         | Some p \<Rightarrow>
             if p = [] then piped
             else (case piped of
                     None \<Rightarrow> Some p
                   | Some t \<Rightarrow> if t = [] then Some p else Some (t @ [CHR 0x0A] @ p)))"

text \<open>
  The process as index.ts hands it to the handler: its two logging listeners are
  registered, nothing else has happened.
\<close>

definition initial :: runtime where
  "initial =
     \<lparr>trace = [],
      listeners = [(''unhandledRejection'', LogListener), (''uncaughtException'', LogListener)],
      issued = 0, pending = [], timer = None, tui_up = False, ended = False\<rparr>"

text \<open>
  Lines 107--116 as the process does them: the disk is asked about the packaged worker
  only when no path was injected.
\<close>

definition worker_probe :: "environment \<Rightarrow> action list" where
  "worker_probe env =
     (case OPENCODE_WORKER_PATH env of
        Some p \<Rightarrow> []
      | None \<Rightarrow> [FileExists (distWorker env)])"

definition handler_workerPath :: "environment \<Rightarrow> path" where
  "handler_workerPath env =
     workerPath (OPENCODE_WORKER_PATH env) (disk env) (distWorker env) (localWorker env)"

text \<open>
  Lines 107--154 when \<^verbatim>\<open>process.chdir\<close> succeeds: the worker path, the change of
  directory, the worker with the defined entries of the environment, its \<^verbatim>\<open>onerror\<close>,
  the three listeners, and the piped input.
\<close>

definition startup :: "environment \<Rightarrow> args \<Rightarrow> action list" where
  "startup env a =
     worker_probe env @
     [Chdir (handler_cwd env a),
      NewWorker (handler_workerPath env) (fromEntries (defined_entries (process_env env))),
      WorkerOnError,
      ProcessOn ''uncaughtException'',
      ProcessOn ''unhandledRejection'',
      ProcessOn ''SIGUSR2''] @
     (if \<not> stdin_isTTY env then [StdinText] else [])"

text \<open>The listeners of the process once the handler has added its three.\<close>

definition handler_listeners :: "(string \<times> listener) list" where
  "handler_listeners =
     listeners initial @
     [(''uncaughtException'', LogListener),
      (''unhandledRejection'', LogListener),
      (''SIGUSR2'', ReloadListener)]"

text \<open>
  The handler up to the first point where it waits for the worker or for the TUI. The
  steps are those of the source, in its order; when \<^verbatim>\<open>process.chdir\<close> throws, the error
  is reported and the handler returns (lines 119--121). Otherwise one of the two modes
  is entered. The waits on the disk, on the standard input and on the network options
  are taken to complete, and no event is taken to arrive before they have.
\<close>

definition handler :: "environment \<Rightarrow> args \<Rightarrow> runtime" where
  "handler env a =
     (let cwd = handler_cwd env a
      in if cwd \<notin> directories env
         then initial
                \<lparr>trace := worker_probe env @
                   [Chdir cwd, UIError (''Failed to change directory to '' @ cwd), Return],
                 ended := True\<rparr>
         else
           let s = initial\<lparr>trace := startup env a, listeners := handler_listeners\<rparr>;
               p = handler_prompt env a;
               networkOpts = resolved_network_options env
           in if shouldStartServer (process_argv env) networkOpts
              then client_call ''server'' (ServerInput networkOpts) (AwaitServer a p cwd) s
              else launch ''http://opencode.internal'' (Some WorkerFetch) (Some WorkerEvents)
                     a p cwd s)"

section \<open>Reading the trace\<close>

text \<open>The calls issued, in order.\<close>

fun calls_of :: "action list \<Rightarrow> (string \<times> payload) list" where
  "calls_of [] = []"
| "calls_of (RpcCall m input # t) = (m, input) # calls_of t"
| "calls_of (_ # t) = calls_of t"

definition method_count :: "string \<Rightarrow> action list \<Rightarrow> nat" where
  "method_count m t = length (filter (\<lambda>c. fst c = m) (calls_of t))"

fun is_spawn :: "action \<Rightarrow> bool" where
  "is_spawn (NewWorker _ _) = True"
| "is_spawn _ = False"

fun is_probe :: "action \<Rightarrow> bool" where
  "is_probe (FileExists _) = True"
| "is_probe _ = False"

fun is_timeout :: "action \<Rightarrow> bool" where
  "is_timeout (SetTimeout _) = True"
| "is_timeout _ = False"

text \<open>The actions of lines 107--154, which only the start of the handler performs.\<close>

fun is_startup :: "action \<Rightarrow> bool" where
  "is_startup (FileExists _) = True"
| "is_startup (Chdir _) = True"
| "is_startup (NewWorker _ _) = True"
| "is_startup WorkerOnError = True"
| "is_startup (ProcessOn _) = True"
| "is_startup StdinText = True"
| "is_startup _ = False"

text \<open>The method of the call a continuation waits for.\<close>

fun cont_method :: "cont \<Rightarrow> string" where
  "cont_method (AwaitServer _ _ _) = ''server''"
| "cont_method AwaitReload = ''reload''"
| "cont_method AwaitShutdown = ''shutdown''"
| "cont_method CatchCheckUpgrade = ''checkUpgrade''"

text \<open>
  Invariants of the running process: the calls are numbered as the trace lists them
  and each pending one waits under its own method; the TUI is started at most once,
  its timer is set with it and the version check is issued when the timer runs out; the
  promise of the TUI resolves at most once.
\<close>

definition calls_ok :: "runtime \<Rightarrow> bool" where
  "calls_ok s =
     (issued s = length (calls_of (trace s)) \<and>
      (\<forall>(k, c) \<in> set (pending s). k < issued s \<and> fst (calls_of (trace s) ! k) = cont_method c))"

definition launch_ok :: "path \<Rightarrow> runtime \<Rightarrow> bool" where
  "launch_ok cwd s =
     ((\<forall>(k, c) \<in> set (pending s). \<forall>a p d. c = AwaitServer a p d \<longrightarrow> k = 0 \<and> d = cwd \<and> \<not> tui_up s)
      \<and> (timer s = None \<or> (timer s = Some cwd \<and> tui_up s))
      \<and> length (filter is_timeout (trace s)) = (if tui_up s then 1 else 0)
      \<and> method_count ''checkUpgrade'' (trace s) = (if tui_up s \<and> timer s = None then 1 else 0))"

definition order_ok :: "runtime \<Rightarrow> bool" where
  "order_ok s =
     ((tui_up s \<longrightarrow>
        (\<exists>pre i post. trace s = pre @ [Tui i, SetTimeout 1000] @ post \<and>
           method_count ''checkUpgrade'' pre = 0))
      \<and> count_list (trace s) Resolve \<le> 1
      \<and> (Resolve \<in> set (trace s) \<longrightarrow>
           ended s \<and>
           (\<exists>pre k r. trace s = pre @ [RpcSettled k (Fulfilled r), Resolve, Return] \<and>
              k < length (calls_of pre) \<and> fst (calls_of pre ! k) = ''shutdown'')))"

definition wf :: "path \<Rightarrow> runtime \<Rightarrow> bool" where
  "wf cwd s = (listeners s = handler_listeners \<and> calls_ok s \<and> launch_ok cwd s \<and> order_ok s)"

section \<open>The RPC channel\<close>


text \<open>
  Modelled from the spec: how the promise of a call settles: fulfilled with the result,
  rejected with the error of the response, or rejected with the channel-closed failure
  (section 4.1).
\<close>

datatype settlement = Fulfil result | Reject string | ChannelClosed

text \<open>
  Modelled from the spec: the state of the channel of \<^verbatim>\<open>util/rpc\<close>: whether the transport
  is alive, the next correlation id, the pending-response entries, what was written
  onto the transport, and the settlements of the promises in the order they happened.
\<close>

record channel =
  is_open :: bool
  next_id :: nat
  entries :: "nat list"
  transport :: "(nat \<times> string \<times> payload) list"
  settled :: "(nat \<times> settlement) list"








section \<open>A concrete process\<close>

text \<open>
  An environment and a command line to run the definitions on: no networking flag, the
  default network options, no injected worker path, and only the development worker on
  the disk.
\<close>

definition example_env :: environment where
  "example_env =
     \<lparr>process_argv = [''bun'', ''opencode''],
      env_PWD = Some ''/home/u'',
      process_cwd = ''/home/u'',
      process_env = [(''HOME'', Some ''/home/u''), (''EDITOR'', None)],
      OPENCODE_WORKER_PATH = None,
      localWorker = ''/src/worker.ts'',
      distWorker = ''/dist/worker.js'',
      disk = {''/src/worker.ts''},
      directories = {''/home/u''},
      path_resolve = (\<lambda>base p. base @ ''/'' @ p),
      stdin_isTTY = True,
      stdin_text = [],
      resolved_network_options = \<lparr>port = 0, hostname = ''127.0.0.1'', mdns = False\<rparr>\<rparr>"

text \<open>The same environment with a port in the resolved network options.\<close>

definition example_server_env :: environment where
  "example_server_env =
     example_env\<lparr>resolved_network_options :=
       \<lparr>port = 4096, hostname = ''127.0.0.1'', mdns = False\<rparr>\<rparr>"

text \<open>A worker that answers every \<^verbatim>\<open>fetch\<close> with the same result.\<close>

definition example_client :: "string \<Rightarrow> fetch_input \<Rightarrow> fetch_output outcome" where
  "example_client m input =
     Fulfilled \<lparr>out_body = ''hello'', out_status = 200, out_headers = [(''x'', ''1'')]\<rparr>"

definition example_args :: args where
  "example_args =
     \<lparr>project = None, model = None, continue = None, session = None, prompt = None,
      agent = None\<rparr>"

section \<open>Lemmas on mode selection and the fetch bridge\<close>

lemma includes_set: "array_includes xs s = (s \<in> set xs)"
  by (induction xs) auto

lemma shouldStartServer_elements:
  "shouldStartServer av opts =
     (''--port'' \<in> set av \<or> ''--hostname'' \<in> set av \<or> ''--mdns'' \<in> set av \<or>
      mdns opts \<or> port opts \<noteq> 0 \<or> hostname opts \<noteq> ''127.0.0.1'')"
  by (simp add: shouldStartServer_def includes_set)

lemma foldl_update_fresh:
  "distinct (map fst es) \<Longrightarrow> fst ` set acc \<inter> fst ` set es = {} \<Longrightarrow>
   foldl (\<lambda>obj (k, v). AList.update k v obj) acc es = acc @ es"
proof (induction es arbitrary: acc)
  case Nil
  then show ?case by simp
next
  case (Cons e es)
  obtain k v where e: "e = (k, v)" by (cases e)
  from Cons.prems have fresh: "k \<notin> fst ` set acc" by (auto simp: e)
  then have upd: "AList.update k v acc = acc @ [(k, v)]"
    by (induction acc) auto
  have "fst ` set (acc @ [(k, v)]) \<inter> fst ` set es = {}"
    using Cons.prems by (auto simp: e)
  moreover have "distinct (map fst es)" using Cons.prems by simp
  ultimately have "foldl (\<lambda>obj (k, v). AList.update k v obj) (acc @ [(k, v)]) es = (acc @ [(k, v)]) @ es"
    by (rule Cons.IH[rotated])
  then show ?case by (simp add: e upd)
qed

lemma fromEntries_distinct: "distinct (map fst es) \<Longrightarrow> fromEntries es = es"
  using foldl_update_fresh [of es "[]"] by (simp add: fromEntries_def)

section \<open>Lemmas on the running process\<close>

lemma calls_of_append [simp]: "calls_of (xs @ ys) = calls_of xs @ calls_of ys"
  by (induction xs rule: calls_of.induct) auto

lemma method_count_append [simp]:
  "method_count m (xs @ ys) = method_count m xs + method_count m ys"
  by (simp add: method_count_def)

lemma ended_step [simp]: "ended s \<Longrightarrow> step s ev = s"
  by (simp add: step_def)

lemma ended_run [simp]: "ended s \<Longrightarrow> run s evs = s"
  by (induction evs) (simp_all add: run_def)

lemma run_Nil [simp]: "run s [] = s"
  by (simp add: run_def)

lemma run_Cons [simp]: "run s (ev # evs) = run (step s ev) evs"
  by (simp add: run_def)

lemma emit_SIGUSR2:
  "listeners s = handler_listeners \<Longrightarrow>
   emit ''SIGUSR2'' e s = client_call ''reload'' Undefined AwaitReload s"
  by (simp add: emit_def handler_listeners_def initial_def)

lemma emit_unhandledRejection:
  "listeners s = handler_listeners \<Longrightarrow>
   emit ''unhandledRejection'' e s = s\<lparr>trace := trace s @ [LogError e, LogError e]\<rparr>"
  by (simp add: emit_def handler_listeners_def initial_def)

text \<open>The steps of a live process with the handler's listeners, one by one.\<close>

lemma step_SIGUSR2:
  "\<not> ended s \<Longrightarrow> listeners s = handler_listeners \<Longrightarrow>
   step s SIGUSR2 =
     s\<lparr>trace := trace s @ [RpcCall ''reload'' Undefined],
       pending := pending s @ [(issued s, AwaitReload)],
       issued := Suc (issued s)\<rparr>"
  by (simp add: step_def emit_SIGUSR2 client_call_def)

lemma step_Exit:
  "\<not> ended s \<Longrightarrow> tui_up s \<Longrightarrow>
   step s Exit =
     s\<lparr>trace := trace s @ [Unguard, RpcCall ''shutdown'' Undefined],
       pending := pending s @ [(issued s, AwaitShutdown)],
       issued := Suc (issued s)\<rparr>"
  by (simp add: step_def client_call_def)

lemma step_Timeout:
  "\<not> ended s \<Longrightarrow> timer s = Some d \<Longrightarrow>
   step s Timeout =
     s\<lparr>trace := trace s @ [RpcCall ''checkUpgrade'' (CheckUpgradeInput d)],
       pending := pending s @ [(issued s, CatchCheckUpgrade)],
       issued := Suc (issued s), timer := None\<rparr>"
  by (simp add: step_def client_call_def)

lemma step_Settle:
  "\<not> ended s \<Longrightarrow> map_of (pending s) k = Some c \<Longrightarrow>
   step s (Settle k out) =
     resume c out (s\<lparr>trace := trace s @ [RpcSettled k out], pending := AList.delete k (pending s)\<rparr>)"
  by (simp add: step_def)

lemma step_Settle_unknown: "map_of (pending s) k = None \<Longrightarrow> step s (Settle k out) = s"
  by (simp add: step_def)

text \<open>Every step of a live process is one of these.\<close>

lemma step_elim [consumes 2, case_names idle signal timeout exit launched threw resolved
    exit_failed reload_failed quiet worker_error]:
  assumes "\<not> ended s" and "listeners s = handler_listeners"
  obtains
    (idle) "step s ev = s"
  | (signal) "ev = SIGUSR2"
      "step s ev = s\<lparr>trace := trace s @ [RpcCall ''reload'' Undefined],
         pending := pending s @ [(issued s, AwaitReload)], issued := Suc (issued s)\<rparr>"
  | (timeout) d where "ev = Timeout" "timer s = Some d"
      "step s ev = s\<lparr>trace := trace s @ [RpcCall ''checkUpgrade'' (CheckUpgradeInput d)],
         pending := pending s @ [(issued s, CatchCheckUpgrade)], issued := Suc (issued s),
         timer := None\<rparr>"
  | (exit) "ev = Exit" "tui_up s"
      "step s ev = s\<lparr>trace := trace s @ [Unguard, RpcCall ''shutdown'' Undefined],
         pending := pending s @ [(issued s, AwaitShutdown)], issued := Suc (issued s)\<rparr>"
  | (launched) k a p cwd u i where "ev = Settle k (Fulfilled (ServerOutput u))"
      "map_of (pending s) k = Some (AwaitServer a p cwd)"
      "step s ev = s\<lparr>trace := trace s @ [RpcSettled k (Fulfilled (ServerOutput u)), Tui i, SetTimeout 1000],
         pending := AList.delete k (pending s), timer := Some cwd, tui_up := True\<rparr>"
  | (threw) k a p cwd e where "ev = Settle k (Rejected e)"
      "map_of (pending s) k = Some (AwaitServer a p cwd)"
      "step s ev = s\<lparr>trace := trace s @ [RpcSettled k (Rejected e), Throw e],
         pending := AList.delete k (pending s), ended := True\<rparr>"
  | (resolved) k r where "ev = Settle k (Fulfilled r)"
      "map_of (pending s) k = Some AwaitShutdown"
      "step s ev = s\<lparr>trace := trace s @ [RpcSettled k (Fulfilled r), Resolve, Return],
         pending := AList.delete k (pending s), ended := True\<rparr>"
  | (exit_failed) k e where "ev = Settle k (Rejected e)"
      "map_of (pending s) k = Some AwaitShutdown"
      "step s ev = s\<lparr>trace := trace s @ [RpcSettled k (Rejected e), OnExitRejected e],
         pending := AList.delete k (pending s)\<rparr>"
  | (reload_failed) k e where "ev = Settle k (Rejected e)"
      "map_of (pending s) k = Some AwaitReload"
      "step s ev = s\<lparr>trace := trace s @ [RpcSettled k (Rejected e), LogError e, LogError e],
         pending := AList.delete k (pending s)\<rparr>"
  | (quiet) k c out where "ev = Settle k out" "map_of (pending s) k = Some c"
      "step s ev = s\<lparr>trace := trace s @ [RpcSettled k out],
         pending := AList.delete k (pending s)\<rparr>"
  | (worker_error) e where "ev = WorkerError e"
      "step s ev = s\<lparr>trace := trace s @ [LogError e]\<rparr>"
proof (cases ev)
  case SIGUSR2
  then show ?thesis using assms signal by (simp add: step_SIGUSR2)
next
  case Timeout
  show ?thesis
  proof (cases "timer s")
    case None
    then show ?thesis using Timeout assms idle by (simp add: step_def)
  next
    case (Some d)
    then show ?thesis using Timeout assms timeout by (simp add: step_Timeout)
  qed
next
  case Exit
  show ?thesis
  proof (cases "tui_up s")
    case True
    then show ?thesis using Exit assms exit by (simp add: step_Exit)
  next
    case False
    then show ?thesis using Exit assms idle by (simp add: step_def)
  qed
next
  case (Settle k out)
  show ?thesis
  proof (cases "map_of (pending s) k")
    case None
    then show ?thesis using Settle idle by (simp add: step_Settle_unknown)
  next
    case (Some c)
    let ?s = "s\<lparr>trace := trace s @ [RpcSettled k out], pending := AList.delete k (pending s)\<rparr>"
    have st: "step s ev = resume c out ?s"
      using Settle Some assms by (simp add: step_Settle)
    have ls: "listeners ?s = handler_listeners" using assms by simp
    show ?thesis
    proof (cases "(c, out, ?s)" rule: resume.cases)
      case (1 a p cwd u s')
      with st Settle Some show ?thesis
        by (intro launched [of k u a p cwd
              "\<lparr>tui_url = u, tui_fetch = None, tui_events = None, tui_continue = continue a,
                tui_sessionID = session a, tui_agent = agent a, tui_model = model a,
                tui_prompt = p\<rparr>"])
           (simp_all add: launch_def)
    next
      case (2 a p cwd v s')
      with st Settle Some show ?thesis by (intro quiet [of k out c]) simp_all
    next
      case (3 a p cwd s')
      with st Settle Some show ?thesis by (intro quiet [of k out c]) simp_all
    next
      case (4 a p cwd e s')
      with st Settle Some show ?thesis by (intro threw [of k e a p cwd]) simp_all
    next
      case (5 uu s')
      with st Settle Some show ?thesis by (intro quiet [of k out c]) simp_all
    next
      case (6 e s')
      with st Settle Some ls show ?thesis
        by (intro reload_failed [of k e]) (simp_all add: emit_unhandledRejection)
    next
      case (7 uv s')
      with st Settle Some show ?thesis by (intro resolved [of k uv]) simp_all
    next
      case (8 e s')
      with st Settle Some show ?thesis by (intro exit_failed [of k e]) simp_all
    next
      case (9 uw s')
      with st Settle Some show ?thesis by (intro quiet [of k out c]) simp_all
    qed
  qed
next
  case (WorkerError e)
  then show ?thesis using assms worker_error by (simp add: step_def)
qed

lemma listeners_step:
  assumes L: "listeners s = handler_listeners"
  shows "listeners (step s ev) = handler_listeners"
proof (cases "ended s")
  case True
  with L show ?thesis by simp
next
  case False
  from False L show ?thesis by (cases rule: step_elim [where ev = ev]) (simp_all add: L)
qed

lemma pending_deleted: "(k', c) \<in> set (AList.delete k ps) \<Longrightarrow> (k', c) \<in> set ps \<and> k' \<noteq> k"
  by (auto simp: AList.delete_eq)

lemma calls_ok_step:
  assumes L: "listeners s = handler_listeners" and C: "calls_ok s"
  shows "calls_ok (step s ev)"
proof (cases "ended s")
  case True
  with C show ?thesis by simp
next
  case False
  from False L show ?thesis
  proof (cases rule: step_elim [where ev = ev])
    case idle
    with C show ?thesis by simp
  next
    case signal
    with C show ?thesis by (auto simp: calls_ok_def nth_append)
  next
    case (timeout d)
    with C show ?thesis by (auto simp: calls_ok_def nth_append)
  next
    case exit
    with C show ?thesis by (auto simp: calls_ok_def nth_append)
  next
    case (launched k a p cwd u i)
    with C show ?thesis by (auto simp: calls_ok_def dest!: pending_deleted)
  next
    case (threw k a p cwd e)
    with C show ?thesis by (auto simp: calls_ok_def dest!: pending_deleted)
  next
    case (resolved k r)
    with C show ?thesis by (auto simp: calls_ok_def dest!: pending_deleted)
  next
    case (exit_failed k e)
    with C show ?thesis by (auto simp: calls_ok_def dest!: pending_deleted)
  next
    case (reload_failed k e)
    with C show ?thesis by (auto simp: calls_ok_def dest!: pending_deleted)
  next
    case (quiet k c out)
    with C show ?thesis by (auto simp: calls_ok_def dest!: pending_deleted)
  next
    case (worker_error e)
    with C show ?thesis by (auto simp: calls_ok_def)
  qed
qed

lemma launch_ok_step:
  assumes L: "listeners s = handler_listeners" and C: "launch_ok cwd s"
  shows "launch_ok cwd (step s ev)"
proof (cases "ended s")
  case True
  with C show ?thesis by simp
next
  case False
  from False L show ?thesis
  proof (cases rule: step_elim [where ev = ev])
    case idle
    with C show ?thesis by simp
  next
    case signal
    with C show ?thesis by (auto simp: launch_ok_def method_count_def)
  next
    case (timeout d)
    with C show ?thesis by (auto simp: launch_ok_def method_count_def)
  next
    case exit
    with C show ?thesis by (auto simp: launch_ok_def method_count_def)
  next
    case (launched k a p d u i)
    from launched(2) have mem: "(k, AwaitServer a p d) \<in> set (pending s)"
      by (rule map_of_SomeD)
    with C have k0: "k = 0" and d: "d = cwd" and down: "\<not> tui_up s"
      by (auto simp: launch_ok_def)
    have gone: "\<And>k' a' p' d'. (k', AwaitServer a' p' d') \<notin> set (AList.delete k (pending s))"
      using C k0 by (auto simp: launch_ok_def dest!: pending_deleted)
    from C down have "length (filter is_timeout (trace s)) = 0"
      and "method_count ''checkUpgrade'' (trace s) = 0"
      by (auto simp: launch_ok_def)
    with launched(3) d gone show ?thesis
      by (auto simp: launch_ok_def method_count_def)
  next
    case (threw k a p d e)
    with C show ?thesis by (auto simp: launch_ok_def method_count_def dest!: pending_deleted)
  next
    case (resolved k r)
    with C show ?thesis by (auto simp: launch_ok_def method_count_def dest!: pending_deleted)
  next
    case (exit_failed k e)
    with C show ?thesis by (auto simp: launch_ok_def method_count_def dest!: pending_deleted)
  next
    case (reload_failed k e)
    with C show ?thesis by (auto simp: launch_ok_def method_count_def dest!: pending_deleted)
  next
    case (quiet k c out)
    with C show ?thesis by (auto simp: launch_ok_def method_count_def dest!: pending_deleted)
  next
    case (worker_error e)
    with C show ?thesis by (auto simp: launch_ok_def method_count_def)
  qed
qed

lemma scheduled_append:
  assumes "\<exists>pre i post. t = pre @ [Tui i, SetTimeout 1000] @ post \<and> method_count ''checkUpgrade'' pre = 0"
  shows "\<exists>pre i post. t @ d = pre @ [Tui i, SetTimeout 1000] @ post \<and> method_count ''checkUpgrade'' pre = 0"
proof -
  from assms obtain pre i post
    where t: "t = pre @ [Tui i, SetTimeout 1000] @ post" and n: "method_count ''checkUpgrade'' pre = 0"
    by blast
  from t have "t @ d = pre @ [Tui i, SetTimeout 1000] @ (post @ d)" by simp
  with n show ?thesis by blast
qed

lemma count_list_append [simp]: "count_list (xs @ ys) a = count_list xs a + count_list ys a"
  by (induction xs) auto

lemma count_list_absent: "a \<notin> set xs \<Longrightarrow> count_list xs a = 0"
  by (induction xs) auto

lemma order_ok_step:
  assumes L: "listeners s = handler_listeners" and C: "calls_ok s" and La: "launch_ok cwd s"
    and O: "order_ok s"
  shows "order_ok (step s ev)"
proof (cases "ended s")
  case True
  with O show ?thesis by simp
next
  case False
  with O have NR: "Resolve \<notin> set (trace s)" by (auto simp: order_ok_def)
  then have N0: "count_list (trace s) Resolve = 0" by (rule count_list_absent)
  have keep: "order_ok (s')"
    if "trace s' = trace s @ d" "Resolve \<notin> set d" "tui_up s' = tui_up s" for s' d
  proof -
    have "tui_up s' \<longrightarrow>
        (\<exists>pre i post. trace s' = pre @ [Tui i, SetTimeout 1000] @ post \<and>
           method_count ''checkUpgrade'' pre = 0)"
      using O that scheduled_append [of "trace s" d] by (auto simp: order_ok_def)
    moreover have "count_list (trace s') Resolve \<le> 1"
      using that N0 by (simp add: count_list_absent)
    moreover have "Resolve \<notin> set (trace s')" using that NR by simp
    ultimately show ?thesis by (simp add: order_ok_def)
  qed
  from False L show ?thesis
  proof (cases rule: step_elim [where ev = ev])
    case idle
    with O show ?thesis by simp
  next
    case signal
    then show ?thesis by (intro keep [where d = "[RpcCall ''reload'' Undefined]"]) simp_all
  next
    case (timeout d)
    then show ?thesis
      by (intro keep [where d = "[RpcCall ''checkUpgrade'' (CheckUpgradeInput d)]"]) simp_all
  next
    case exit
    then show ?thesis
      by (intro keep [where d = "[Unguard, RpcCall ''shutdown'' Undefined]"]) simp_all
  next
    case (launched k a p d u i)
    from launched(2) have mem: "(k, AwaitServer a p d) \<in> set (pending s)"
      by (rule map_of_SomeD)
    with La have down: "\<not> tui_up s" by (auto simp: launch_ok_def)
    with La have n0: "method_count ''checkUpgrade'' (trace s) = 0" by (auto simp: launch_ok_def)
    let ?pre = "trace s @ [RpcSettled k (Fulfilled (ServerOutput u))]"
    have "trace (step s ev) = ?pre @ [Tui i, SetTimeout 1000] @ []"
      using launched(3) by simp
    moreover have "method_count ''checkUpgrade'' ?pre = 0"
      using n0 by (simp add: method_count_def)
    ultimately have "\<exists>pre i post. trace (step s ev) = pre @ [Tui i, SetTimeout 1000] @ post \<and>
           method_count ''checkUpgrade'' pre = 0"
      by blast
    moreover have "Resolve \<notin> set (trace (step s ev))" using launched(3) NR by simp
    ultimately show ?thesis by (simp add: order_ok_def count_list_absent)
  next
    case (threw k a p d e)
    then show ?thesis
      by (intro keep [where d = "[RpcSettled k (Rejected e), Throw e]"]) simp_all
  next
    case (resolved k r)
    from resolved(2) have mem: "(k, AwaitShutdown) \<in> set (pending s)"
      by (rule map_of_SomeD)
    with C have k: "k < length (calls_of (trace s))" "fst (calls_of (trace s) ! k) = ''shutdown''"
      by (auto simp: calls_ok_def)
    have tr: "trace (step s ev) = trace s @ [RpcSettled k (Fulfilled r), Resolve, Return]"
      using resolved(3) by simp
    with k have "\<exists>pre k r. trace (step s ev) = pre @ [RpcSettled k (Fulfilled r), Resolve, Return] \<and>
              k < length (calls_of pre) \<and> fst (calls_of pre ! k) = ''shutdown''"
      by blast
    moreover have "count_list (trace (step s ev)) Resolve \<le> 1" using tr N0 by simp
    moreover have "ended (step s ev)" using resolved(3) by simp
    moreover have "tui_up (step s ev) \<longrightarrow>
        (\<exists>pre i post. trace (step s ev) = pre @ [Tui i, SetTimeout 1000] @ post \<and>
           method_count ''checkUpgrade'' pre = 0)"
      using O resolved(3) scheduled_append [of "trace s" "[RpcSettled k (Fulfilled r), Resolve, Return]"]
      by (auto simp: order_ok_def)
    ultimately show ?thesis by (simp add: order_ok_def)
  next
    case (exit_failed k e)
    then show ?thesis
      by (intro keep [where d = "[RpcSettled k (Rejected e), OnExitRejected e]"]) simp_all
  next
    case (reload_failed k e)
    then show ?thesis
      by (intro keep [where d = "[RpcSettled k (Rejected e), LogError e, LogError e]"]) simp_all
  next
    case (quiet k c out)
    then show ?thesis by (intro keep [where d = "[RpcSettled k out]"]) simp_all
  next
    case (worker_error e)
    then show ?thesis by (intro keep [where d = "[LogError e]"]) simp_all
  qed
qed

lemma wf_step:
  assumes "wf cwd s"
  shows "wf cwd (step s ev)"
proof -
  from assms have L: "listeners s = handler_listeners" and C: "calls_ok s"
    and La: "launch_ok cwd s" and O: "order_ok s"
    by (simp_all add: wf_def)
  show ?thesis
    unfolding wf_def
    using listeners_step [OF L] calls_ok_step [OF L C] launch_ok_step [OF L La]
      order_ok_step [OF L C La O]
    by simp
qed

lemma wf_run: "wf cwd s \<Longrightarrow> wf cwd (run s evs)"
  by (induction evs arbitrary: s) (simp_all add: wf_step)

lemma startup_calls [simp]: "calls_of (startup env a) = []"
  by (simp add: startup_def worker_probe_def split: option.splits)

lemma startup_no_timeout [simp]: "filter is_timeout (startup env a) = []"
  by (simp add: startup_def worker_probe_def split: option.splits)

lemma startup_no_resolve [simp]: "Resolve \<notin> set (startup env a)"
  by (simp add: startup_def worker_probe_def split: option.splits)

lemma handler_server:
  assumes "handler_cwd env a \<in> directories env"
    and "shouldStartServer (process_argv env) (resolved_network_options env)"
  shows "handler env a =
     initial\<lparr>trace := startup env a @ [RpcCall ''server'' (ServerInput (resolved_network_options env))],
       listeners := handler_listeners,
       pending := [(0, AwaitServer a (handler_prompt env a) (handler_cwd env a))],
       issued := Suc 0\<rparr>"
  using assms by (simp add: handler_def Let_def client_call_def initial_def)

lemma handler_direct:
  assumes "handler_cwd env a \<in> directories env"
    and "\<not> shouldStartServer (process_argv env) (resolved_network_options env)"
  shows "handler env a =
     initial\<lparr>trace := startup env a @
         [Tui \<lparr>tui_url = ''http://opencode.internal'', tui_fetch = Some WorkerFetch,
               tui_events = Some WorkerEvents, tui_continue = continue a,
               tui_sessionID = session a, tui_agent = agent a, tui_model = model a,
               tui_prompt = handler_prompt env a\<rparr>,
          SetTimeout 1000],
       listeners := handler_listeners,
       timer := Some (handler_cwd env a),
       tui_up := True\<rparr>"
  using assms by (simp add: handler_def Let_def launch_def initial_def)

lemma wf_handler:
  assumes ok: "handler_cwd env a \<in> directories env"
  shows "wf (handler_cwd env a) (handler env a)"
proof (cases "shouldStartServer (process_argv env) (resolved_network_options env)")
  case True
  show ?thesis
    unfolding handler_server [OF ok True]
    by (simp add: wf_def calls_ok_def launch_ok_def order_ok_def initial_def method_count_def
          count_list_absent)
next
  case False
  let ?i = "\<lparr>tui_url = ''http://opencode.internal'', tui_fetch = Some WorkerFetch,
               tui_events = Some WorkerEvents, tui_continue = continue a,
               tui_sessionID = session a, tui_agent = agent a, tui_model = model a,
               tui_prompt = handler_prompt env a\<rparr>"
  have "\<exists>pre i post. startup env a @ [Tui ?i, SetTimeout 1000] = pre @ [Tui i, SetTimeout 1000] @ post \<and>
           method_count ''checkUpgrade'' pre = 0"
    by (intro exI [of _ "startup env a"] exI [of _ ?i] exI [of _ "[]"]) (simp add: method_count_def)
  then show ?thesis
    unfolding handler_direct [OF ok False]
    by (simp add: wf_def calls_ok_def launch_ok_def order_ok_def initial_def method_count_def
          count_list_absent)
qed

lemma not_ended_run: "\<not> ended (run s evs) \<Longrightarrow> \<not> ended s"
  using ended_run [of s evs] by auto

lemma startup_step:
  assumes L: "listeners s = handler_listeners"
  shows "filter is_startup (trace (step s ev)) = filter is_startup (trace s)"
proof (cases "ended s")
  case True
  then show ?thesis by simp
next
  case False
  from False L show ?thesis by (cases rule: step_elim [where ev = ev]) simp_all
qed

lemma startup_run:
  "wf cwd s \<Longrightarrow> filter is_startup (trace (run s evs)) = filter is_startup (trace s)"
proof (induction evs arbitrary: s)
  case Nil
  show ?case by simp
next
  case (Cons ev evs)
  from Cons.prems have "listeners s = handler_listeners" by (simp add: wf_def)
  then have "filter is_startup (trace (step s ev)) = filter is_startup (trace s)"
    by (rule startup_step)
  with Cons.IH [OF wf_step [OF Cons.prems, of ev]] show ?case by simp
qed

lemma filter_startup:
  "(\<And>x. P x \<Longrightarrow> is_startup x) \<Longrightarrow> filter P t = filter P (filter is_startup t)"
  by (induction t) auto

lemma spawn_startup: "is_spawn x \<Longrightarrow> is_startup x"
  by (cases x) simp_all

lemma probe_startup: "is_probe x \<Longrightarrow> is_startup x"
  by (cases x) simp_all

lemma handler_startup:
  "handler_cwd env a \<in> directories env \<Longrightarrow>
   filter is_startup (trace (handler env a)) = startup env a"
  by (cases "shouldStartServer (process_argv env) (resolved_network_options env)")
     (simp_all add: handler_server handler_direct startup_def worker_probe_def split: option.splits)

lemma spawned_once:
  assumes ok: "handler_cwd env a \<in> directories env"
  shows "filter is_spawn (trace (run (handler env a) evs)) =
     [NewWorker (handler_workerPath env) (fromEntries (defined_entries (process_env env)))]"
proof -
  have "filter is_spawn (trace (run (handler env a) evs)) =
      filter is_spawn (filter is_startup (trace (run (handler env a) evs)))"
    by (rule filter_startup) (rule spawn_startup)
  also have "\<dots> = filter is_spawn (startup env a)"
    by (simp add: startup_run [OF wf_handler [OF ok]] handler_startup [OF ok])
  also have "\<dots> = [NewWorker (handler_workerPath env) (fromEntries (defined_entries (process_env env)))]"
    by (simp add: startup_def worker_probe_def split: option.splits)
  finally show ?thesis .
qed

lemma probed_once:
  assumes ok: "handler_cwd env a \<in> directories env"
  shows "filter is_probe (trace (run (handler env a) evs)) = worker_probe env"
proof -
  have "filter is_probe (trace (run (handler env a) evs)) =
      filter is_probe (filter is_startup (trace (run (handler env a) evs)))"
    by (rule filter_startup) (rule probe_startup)
  also have "\<dots> = filter is_probe (startup env a)"
    by (simp add: startup_run [OF wf_handler [OF ok]] handler_startup [OF ok])
  also have "\<dots> = worker_probe env"
    by (simp add: startup_def worker_probe_def split: option.splits)
  finally show ?thesis .
qed

lemma handler_failed:
  assumes "handler_cwd env a \<notin> directories env"
  shows "run (handler env a) evs =
     initial\<lparr>trace := worker_probe env @
        [Chdir (handler_cwd env a),
         UIError (''Failed to change directory to '' @ handler_cwd env a), Return],
       ended := True\<rparr>"
  using assms by (simp add: handler_def Let_def)

lemma reload_signal:
  "\<not> ended s \<Longrightarrow> listeners s = handler_listeners \<Longrightarrow>
   method_count ''reload'' (trace (step s SIGUSR2)) = Suc (method_count ''reload'' (trace s))"
  by (simp add: step_SIGUSR2 method_count_def)

lemma reload_other:
  assumes L: "listeners s = handler_listeners" and ev: "ev \<noteq> SIGUSR2"
  shows "method_count ''reload'' (trace (step s ev)) = method_count ''reload'' (trace s)"
proof (cases "ended s")
  case True
  then show ?thesis by simp
next
  case False
  from False L show ?thesis
    by (cases rule: step_elim [where ev = ev]) (use ev in \<open>simp_all add: method_count_def\<close>)
qed

lemma reload_count:
  assumes "wf cwd s" and "\<not> ended (run s evs)"
  shows "method_count ''reload'' (trace (run s evs)) =
     method_count ''reload'' (trace s) + count_list evs SIGUSR2"
  using assms
proof (induction evs arbitrary: s)
  case Nil
  show ?case by simp
next
  case (Cons ev evs)
  from Cons.prems have L: "listeners s = handler_listeners" by (simp add: wf_def)
  from Cons.prems(2) have live': "\<not> ended (run (step s ev) evs)" by simp
  then have "\<not> ended (step s ev)" by (rule not_ended_run)
  then have live: "\<not> ended s" by (auto simp: step_def)
  have "method_count ''reload'' (trace (step s ev)) =
      method_count ''reload'' (trace s) + (if ev = SIGUSR2 then 1 else 0)"
    using reload_signal [OF live L] reload_other [OF L] by auto
  with Cons.IH [OF wf_step [OF Cons.prems(1)] live'] show ?case by simp
qed

lemma shutdown_step:
  assumes L: "listeners s = handler_listeners"
  shows "method_count ''shutdown'' (trace (step s ev)) \<le>
     method_count ''shutdown'' (trace s) + (if ev = Exit then 1 else 0)"
proof (cases "ended s")
  case True
  then show ?thesis by simp
next
  case False
  from False L show ?thesis
    by (cases rule: step_elim [where ev = ev]) (simp_all add: method_count_def)
qed

lemma shutdown_count:
  assumes "wf cwd s"
  shows "method_count ''shutdown'' (trace (run s evs)) \<le>
     method_count ''shutdown'' (trace s) + count_list evs Exit"
  using assms
proof (induction evs arbitrary: s)
  case Nil
  show ?case by simp
next
  case (Cons ev evs)
  from Cons.prems have L: "listeners s = handler_listeners" by (simp add: wf_def)
  from shutdown_step [OF L, of ev] Cons.IH [OF wf_step [OF Cons.prems, of ev]]
  show ?case by (auto split: if_splits)
qed

lemma handler_no_calls_yet:
  "handler_cwd env a \<in> directories env \<Longrightarrow>
   method_count ''reload'' (trace (handler env a)) = 0 \<and>
   method_count ''shutdown'' (trace (handler env a)) = 0"
  by (cases "shouldStartServer (process_argv env) (resolved_network_options env)")
     (simp_all add: handler_server handler_direct method_count_def)

lemma method_present:
  assumes "k < length (calls_of t)" and "fst (calls_of t ! k) = m"
  shows "1 \<le> method_count m t"
proof -
  from assms have "calls_of t ! k \<in> set (filter (\<lambda>c. fst c = m) (calls_of t))"
    by simp
  then have "0 < length (filter (\<lambda>c. fst c = m) (calls_of t))"
    by (rule length_pos_if_in_set)
  then show ?thesis by (simp add: method_count_def Suc_le_eq)
qed

lemma step_server_fulfilled:
  assumes "\<not> ended s" and "map_of (pending s) k = Some (AwaitServer a p d)"
  shows "step s (Settle k (Fulfilled (ServerOutput u))) =
     s\<lparr>trace := trace s @
         [RpcSettled k (Fulfilled (ServerOutput u)),
          Tui \<lparr>tui_url = u, tui_fetch = None, tui_events = None, tui_continue = continue a,
                tui_sessionID = session a, tui_agent = agent a, tui_model = model a,
                tui_prompt = p\<rparr>,
          SetTimeout 1000],
       pending := AList.delete k (pending s),
       timer := Some d,
       tui_up := True\<rparr>"
  using assms by (simp add: step_Settle launch_def)

lemmas ex_simps = example_env_def example_args_def handler_def Let_def handler_cwd_def
  handler_prompt_def startup_def worker_probe_def handler_workerPath_def workerPath_def
  shouldStartServer_def step_def emit_def client_call_def launch_def initial_def
  handler_listeners_def fromEntries_def method_count_def candidates_def

section \<open>Lemmas on the channel\<close>








section \<open>The claims\<close>

text \<open>
  Claim C1. Server mode is to be selected whenever a networking flag is on the command
  line, also when its value is the default. The code looks for the flag as a whole
  element of \<^verbatim>\<open>process.argv\<close> (lines 229--231), so a flag that carries its value in
  the same element is not seen: with \<^verbatim>\<open>--port=0\<close> and the default options the flag is
  on the command line, and the code selects Direct mode and starts the TUI on the
  placeholder URL without a \<^verbatim>\<open>server\<close> call. The same flag with its value in the next
  element selects Server mode, no flag with the default options selects Direct mode, and
  port 4096 selects Server mode.
\<close>

theorem mode_selection_flag_with_value:
  "explicit_flag [''bun'', ''opencode'', ''--port=0'']
   \<and> selected_mode [''bun'', ''opencode'', ''--port=0'']
         \<lparr>port = 0, hostname = ''127.0.0.1'', mdns = False\<rparr> = Direct
   \<and> tui_up (handler (example_env\<lparr>process_argv := [''bun'', ''opencode'', ''--port=0'']\<rparr>)
         example_args)
   \<and> calls_of (trace (handler (example_env\<lparr>process_argv := [''bun'', ''opencode'', ''--port=0'']\<rparr>)
         example_args)) = []
   \<and> explicit_flag [''bun'', ''opencode'', ''--port'', ''0'']
   \<and> selected_mode [''bun'', ''opencode'', ''--port'', ''0'']
         \<lparr>port = 0, hostname = ''127.0.0.1'', mdns = False\<rparr> = Server
   \<and> \<not> explicit_flag [''bun'', ''opencode'']
   \<and> selected_mode [''bun'', ''opencode'']
         \<lparr>port = 0, hostname = ''127.0.0.1'', mdns = False\<rparr> = Direct
   \<and> selected_mode [''bun'', ''opencode'']
         \<lparr>port = 4096, hostname = ''127.0.0.1'', mdns = False\<rparr> = Server"
  by (simp add: explicit_flag_def names_flag_def selected_mode_def ex_simps)



text \<open>
  Claim C3. The fetch function built over the client issues a call to the method
  \<^verbatim>\<open>fetch\<close> whose payload holds the URL, the method, the header entries and the body text
  of the request (a request whose header names are distinct is sent with exactly its
  entries). Whenever it returns a response, the call was fulfilled and the response has
  the body, the status and the headers of the result; it returns one whenever the call
  is fulfilled with a status the \<^verbatim>\<open>Response\<close> constructor accepts, and rejects when the
  constructor throws or the call is rejected.
\<close>

theorem fetch_round_trip:
  "fst (createWorkerFetch client request) =
     (''fetch'',
      \<lparr>url = req_url request, method = req_method request,
       headers = fromEntries (req_headers request),
       body = (case req_body request of None \<Rightarrow> None | Some t \<Rightarrow> Some t)\<rparr>)
   \<and> (distinct (map fst (req_headers request)) \<longrightarrow>
        headers (snd (fst (createWorkerFetch client request))) = req_headers request)
   \<and> (snd (createWorkerFetch client request) = Fulfilled r \<longrightarrow>
        (\<exists>result. client ''fetch'' (snd (fetch_call request)) = Fulfilled result \<and>
           res_body r = out_body result \<and> res_status r = out_status result \<and>
           res_headers r = out_headers result))
   \<and> (client ''fetch'' (snd (fetch_call request)) = Fulfilled result \<and>
      valid_status (out_status result) \<longrightarrow>
        snd (createWorkerFetch client request) =
          Fulfilled \<lparr>res_body = out_body result, res_status = out_status result,
                     res_headers = out_headers result\<rparr>)
   \<and> (client ''fetch'' (snd (fetch_call request)) = Fulfilled result \<and>
      \<not> valid_status (out_status result) \<longrightarrow>
        snd (createWorkerFetch client request) = Rejected ''RangeError'')
   \<and> (client ''fetch'' (snd (fetch_call request)) = Rejected e \<longrightarrow>
        snd (createWorkerFetch client request) = Rejected e)"
proof -
  have sent: "fst (createWorkerFetch client request) =
     (''fetch'',
      \<lparr>url = req_url request, method = req_method request,
       headers = fromEntries (req_headers request),
       body = (case req_body request of None \<Rightarrow> None | Some t \<Rightarrow> Some t)\<rparr>)"
    by (auto simp: createWorkerFetch_def fetch_call_def request_text_def Let_def
          split: option.splits)
  have entries: "distinct (map fst (req_headers request)) \<longrightarrow>
      headers (snd (fst (createWorkerFetch client request))) = req_headers request"
    by (simp add: createWorkerFetch_def fetch_call_def Let_def fromEntries_distinct)
  have name: "fst (fetch_call request) = ''fetch''"
    by (simp add: fetch_call_def Let_def)
  have returned: "snd (createWorkerFetch client request) = Fulfilled r \<longrightarrow>
      (\<exists>result. client ''fetch'' (snd (fetch_call request)) = Fulfilled result \<and>
         res_body r = out_body result \<and> res_status r = out_status result \<and>
         res_headers r = out_headers result)"
    by (auto simp: createWorkerFetch_def Let_def name fetch_response_def new_Response_def
          split: outcome.splits sum.splits if_splits)
  have forth: "client ''fetch'' (snd (fetch_call request)) = Fulfilled result \<and>
      valid_status (out_status result) \<longrightarrow>
        snd (createWorkerFetch client request) =
          Fulfilled \<lparr>res_body = out_body result, res_status = out_status result,
                     res_headers = out_headers result\<rparr>"
    by (simp add: createWorkerFetch_def Let_def name fetch_response_def new_Response_def)
  have thrown: "client ''fetch'' (snd (fetch_call request)) = Fulfilled result \<and>
      \<not> valid_status (out_status result) \<longrightarrow>
        snd (createWorkerFetch client request) = Rejected ''RangeError''"
    by (simp add: createWorkerFetch_def Let_def name fetch_response_def new_Response_def)
  have failed: "client ''fetch'' (snd (fetch_call request)) = Rejected e \<longrightarrow>
      snd (createWorkerFetch client request) = Rejected e"
    by (simp add: createWorkerFetch_def Let_def name)
  from sent entries returned forth thrown failed show ?thesis by blast
qed

theorem fetch_round_trip_witness:
  "createWorkerFetch example_client
     \<lparr>req_url = ''http://opencode.internal/session'', req_method = ''POST'',
      req_headers = [(''content-type'', ''text/plain'')], req_body = Some ''hi''\<rparr> =
   ((''fetch'',
     \<lparr>url = ''http://opencode.internal/session'', method = ''POST'',
      headers = [(''content-type'', ''text/plain'')], body = Some ''hi''\<rparr>),
    Fulfilled \<lparr>res_body = ''hello'', res_status = 200, res_headers = [(''x'', ''1'')]\<rparr>)
   \<and> valid_status 200
   \<and> \<not> valid_status 600
   \<and> snd (createWorkerFetch
        (\<lambda>m input. Fulfilled \<lparr>out_body = ''late'', out_status = 600, out_headers = []\<rparr>)
        \<lparr>req_url = ''http://opencode.internal/session'', req_method = ''GET'',
         req_headers = [], req_body = None\<rparr>) = Rejected ''RangeError''"
  using fetch_round_trip
    [of example_client
        "\<lparr>req_url = ''http://opencode.internal/session'', req_method = ''POST'',
          req_headers = [(''content-type'', ''text/plain'')], req_body = Some ''hi''\<rparr>"
        "\<lparr>res_body = ''hello'', res_status = 200, res_headers = [(''x'', ''1'')]\<rparr>"
        "\<lparr>out_body = ''hello'', out_status = 200, out_headers = [(''x'', ''1'')]\<rparr>" "''none''"]
    fetch_round_trip
    [of "\<lambda>m input. Fulfilled \<lparr>out_body = ''late'', out_status = 600, out_headers = []\<rparr>"
        "\<lparr>req_url = ''http://opencode.internal/session'', req_method = ''GET'',
          req_headers = [], req_body = None\<rparr>"
        "\<lparr>res_body = ''late'', res_status = 600, res_headers = []\<rparr>"
        "\<lparr>out_body = ''late'', out_status = 600, out_headers = []\<rparr>" "''none''"]
  by (simp add: prod_eq_iff fetch_call_def fromEntries_def example_client_def valid_status_def)

text \<open>
  Claim C4. For a request without a body the payload of the \<^verbatim>\<open>fetch\<close> call carries no
  \<^verbatim>\<open>body\<close> (the property is \<^verbatim>\<open>undefined\<close>), and not the text of the request, which is
  the empty string; a request with a body, the empty one included, is sent with its
  text.
\<close>

theorem fetch_no_body_omitted:
  "(req_body request = None \<longrightarrow>
      body (snd (fst (createWorkerFetch client request))) = None
      \<and> body (snd (fst (createWorkerFetch client request))) \<noteq> Some (request_text request))
   \<and> (req_body request = Some t \<longrightarrow>
      body (snd (fst (createWorkerFetch client request))) = Some t)"
  by (simp add: createWorkerFetch_def fetch_call_def request_text_def Let_def)

theorem fetch_no_body_omitted_witness:
  "body (snd (fst (createWorkerFetch example_client
      \<lparr>req_url = ''http://opencode.internal/event'', req_method = ''GET'',
       req_headers = [], req_body = None\<rparr>))) = None
   \<and> body (snd (fst (createWorkerFetch example_client
      \<lparr>req_url = ''http://opencode.internal/event'', req_method = ''POST'',
       req_headers = [], req_body = Some []\<rparr>))) = Some []"
  using fetch_no_body_omitted
    [of "\<lparr>req_url = ''http://opencode.internal/event'', req_method = ''GET'',
          req_headers = [], req_body = None\<rparr>" example_client "[]"]
    fetch_no_body_omitted
    [of "\<lparr>req_url = ''http://opencode.internal/event'', req_method = ''POST'',
          req_headers = [], req_body = Some []\<rparr>" example_client "[]"]
  by simp

text \<open>
  Nothing keeps the exit path from running a second time before the first
  \<^verbatim>\<open>shutdown\<close> call has settled (app.tsx, lines 179--183, has no guard). Then two
  \<^verbatim>\<open>shutdown\<close> calls are issued, and the promise of \<^verbatim>\<open>tui\<close> resolves on the fulfilment
  of the first while the second is still pending.
\<close>

theorem shutdown_twice_counterexample:
  "method_count ''shutdown''
     (trace (run (handler example_env example_args) [Exit, Exit, Settle 0 (Fulfilled Void)])) = 2
   \<and> Resolve \<in> set (trace (run (handler example_env example_args)
        [Exit, Exit, Settle 0 (Fulfilled Void)]))
   \<and> pending (run (handler example_env example_args) [Exit, Exit, Settle 0 (Fulfilled Void)]) =
       [(1, AwaitShutdown)]"
  by (simp add: ex_simps)

text \<open>
  Claim C5, as the code has it. Each run of the exit path issues exactly one
  \<^verbatim>\<open>shutdown\<close> call of its own, whatever other calls are pending, and no \<^verbatim>\<open>shutdown\<close>
  call is issued otherwise. The promise of \<^verbatim>\<open>tui\<close> resolves at most once, and only
  directly after a \<^verbatim>\<open>shutdown\<close> call has been fulfilled: the fulfilment of a pending
  \<^verbatim>\<open>shutdown\<close> call resolves it and ends the handler, a rejection does not. When the
  exit path has run no more than once and the promise has resolved, exactly one
  \<^verbatim>\<open>shutdown\<close> call was issued, and it is the one whose fulfilment the resolution
  follows.
\<close>

theorem shutdown_awaited:
  assumes ok: "handler_cwd env a \<in> directories env"
  shows "(\<not> ended (run (handler env a) evs) \<and> tui_up (run (handler env a) evs) \<longrightarrow>
            step (run (handler env a) evs) Exit =
              (run (handler env a) evs)
                \<lparr>trace := trace (run (handler env a) evs) @
                   [Unguard, RpcCall ''shutdown'' Undefined],
                 pending := pending (run (handler env a) evs) @
                   [(issued (run (handler env a) evs), AwaitShutdown)],
                 issued := Suc (issued (run (handler env a) evs))\<rparr>)
       \<and> method_count ''shutdown'' (trace (run (handler env a) evs)) \<le> count_list evs Exit
       \<and> count_list (trace (run (handler env a) evs)) Resolve \<le> 1
       \<and> (Resolve \<in> set (trace (run (handler env a) evs)) \<longrightarrow>
            (\<exists>pre k r. trace (run (handler env a) evs) =
                 pre @ [RpcSettled k (Fulfilled r), Resolve, Return] \<and>
               k < length (calls_of pre) \<and> fst (calls_of pre ! k) = ''shutdown''))
       \<and> (count_list evs Exit \<le> 1 \<and> Resolve \<in> set (trace (run (handler env a) evs)) \<longrightarrow>
            method_count ''shutdown'' (trace (run (handler env a) evs)) = 1)
       \<and> (\<not> ended (run (handler env a) evs) \<and>
          map_of (pending (run (handler env a) evs)) k = Some c \<and>
          fst (calls_of (trace (run (handler env a) evs)) ! k) = ''shutdown'' \<longrightarrow>
            step (run (handler env a) evs) (Settle k (Fulfilled r)) =
              (run (handler env a) evs)
                \<lparr>trace := trace (run (handler env a) evs) @
                   [RpcSettled k (Fulfilled r), Resolve, Return],
                 pending := AList.delete k (pending (run (handler env a) evs)),
                 ended := True\<rparr> \<and>
            step (run (handler env a) evs) (Settle k (Rejected e)) =
              (run (handler env a) evs)
                \<lparr>trace := trace (run (handler env a) evs) @
                   [RpcSettled k (Rejected e), OnExitRejected e],
                 pending := AList.delete k (pending (run (handler env a) evs))\<rparr>)"
proof -
  let ?s = "run (handler env a) evs"
  have wf0: "wf (handler_cwd env a) (handler env a)" by (rule wf_handler [OF ok])
  then have "wf (handler_cwd env a) ?s" by (rule wf_run)
  then have O: "order_ok ?s" and C: "calls_ok ?s" by (simp_all add: wf_def)
  have settles: "\<not> ended ?s \<and> map_of (pending ?s) k = Some c \<and>
      fst (calls_of (trace ?s) ! k) = ''shutdown'' \<longrightarrow>
      step ?s (Settle k (Fulfilled r)) =
        ?s\<lparr>trace := trace ?s @ [RpcSettled k (Fulfilled r), Resolve, Return],
           pending := AList.delete k (pending ?s), ended := True\<rparr> \<and>
      step ?s (Settle k (Rejected e)) =
        ?s\<lparr>trace := trace ?s @ [RpcSettled k (Rejected e), OnExitRejected e],
           pending := AList.delete k (pending ?s)\<rparr>"
  proof (intro impI, elim conjE)
    assume live: "\<not> ended ?s" and p: "map_of (pending ?s) k = Some c"
      and m: "fst (calls_of (trace ?s) ! k) = ''shutdown''"
    from p have "(k, c) \<in> set (pending ?s)" by (rule map_of_SomeD)
    with C m have "cont_method c = ''shutdown''" by (auto simp: calls_ok_def)
    then have "c = AwaitShutdown" by (cases c) simp_all
    with live p show "step ?s (Settle k (Fulfilled r)) =
        ?s\<lparr>trace := trace ?s @ [RpcSettled k (Fulfilled r), Resolve, Return],
           pending := AList.delete k (pending ?s), ended := True\<rparr> \<and>
      step ?s (Settle k (Rejected e)) =
        ?s\<lparr>trace := trace ?s @ [RpcSettled k (Rejected e), OnExitRejected e],
           pending := AList.delete k (pending ?s)\<rparr>"
      by (simp add: step_Settle)
  qed
  have one: "\<not> ended ?s \<and> tui_up ?s \<longrightarrow>
      step ?s Exit =
        ?s\<lparr>trace := trace ?s @ [Unguard, RpcCall ''shutdown'' Undefined],
           pending := pending ?s @ [(issued ?s, AwaitShutdown)],
           issued := Suc (issued ?s)\<rparr>"
    by (simp add: step_Exit)
  have count: "method_count ''shutdown'' (trace ?s) \<le> count_list evs Exit"
    using shutdown_count [OF wf0, of evs] handler_no_calls_yet [OF ok] by simp
  have once: "count_list (trace ?s) Resolve \<le> 1" using O by (simp add: order_ok_def)
  have after: "Resolve \<in> set (trace ?s) \<longrightarrow>
      (\<exists>pre k r. trace ?s = pre @ [RpcSettled k (Fulfilled r), Resolve, Return] \<and>
         k < length (calls_of pre) \<and> fst (calls_of pre ! k) = ''shutdown'')"
    using O by (simp add: order_ok_def)
  have single: "count_list evs Exit \<le> 1 \<and> Resolve \<in> set (trace ?s) \<longrightarrow>
      method_count ''shutdown'' (trace ?s) = 1"
  proof (intro impI, elim conjE)
    assume e: "count_list evs Exit \<le> 1" and r: "Resolve \<in> set (trace ?s)"
    from after r obtain pre k r'
      where t: "trace ?s = pre @ [RpcSettled k (Fulfilled r'), Resolve, Return]"
        and k: "k < length (calls_of pre)" "fst (calls_of pre ! k) = ''shutdown''"
      by blast
    from k have "1 \<le> method_count ''shutdown'' pre" by (rule method_present)
    with t have "1 \<le> method_count ''shutdown'' (trace ?s)" by (simp add: method_count_def)
    with count e show "method_count ''shutdown'' (trace ?s) = 1" by simp
  qed
  from one count once after single settles show ?thesis by blast
qed

theorem shutdown_awaited_witness:
  "handler_cwd example_env example_args \<in> directories example_env
   \<and> \<not> ended (run (handler example_env example_args) [SIGUSR2])
   \<and> tui_up (run (handler example_env example_args) [SIGUSR2])
   \<and> pending (run (handler example_env example_args) [SIGUSR2]) = [(0, AwaitReload)]
   \<and> trace (step (run (handler example_env example_args) [SIGUSR2]) Exit) =
       trace (run (handler example_env example_args) [SIGUSR2]) @
       [Unguard, RpcCall ''shutdown'' Undefined]
   \<and> count_list [SIGUSR2, Exit, Settle 1 (Fulfilled Void)] Exit \<le> 1
   \<and> Resolve \<in> set (trace (run (handler example_env example_args)
        [SIGUSR2, Exit, Settle 1 (Fulfilled Void)]))
   \<and> pending (run (handler example_env example_args)
        [SIGUSR2, Exit, Settle 1 (Fulfilled Void)]) = [(0, AwaitReload)]
   \<and> method_count ''shutdown'' (trace (run (handler example_env example_args)
        [SIGUSR2, Exit, Settle 1 (Fulfilled Void)])) = 1
   \<and> (\<exists>pre k r. trace (run (handler example_env example_args)
          [SIGUSR2, Exit, Settle 1 (Fulfilled Void)]) =
            pre @ [RpcSettled k (Fulfilled r), Resolve, Return] \<and>
          k < length (calls_of pre) \<and> fst (calls_of pre ! k) = ''shutdown'')
   \<and> trace (step (run (handler example_env example_args) [SIGUSR2, Exit])
        (Settle 1 (Fulfilled Void))) =
       trace (run (handler example_env example_args) [SIGUSR2, Exit]) @
       [RpcSettled 1 (Fulfilled Void), Resolve, Return]
   \<and> trace (step (run (handler example_env example_args) [SIGUSR2, Exit])
        (Settle 1 (Rejected ''busy''))) =
       trace (run (handler example_env example_args) [SIGUSR2, Exit]) @
       [RpcSettled 1 (Rejected ''busy''), OnExitRejected ''busy'']"
proof -
  have h: "handler_cwd example_env example_args \<in> directories example_env"
    by (simp add: ex_simps)
  have a: "\<not> ended (run (handler example_env example_args) [SIGUSR2])
     \<and> tui_up (run (handler example_env example_args) [SIGUSR2])
     \<and> pending (run (handler example_env example_args) [SIGUSR2]) = [(0, AwaitReload)]"
    by (simp add: ex_simps)
  have b: "Resolve \<in> set (trace (run (handler example_env example_args)
        [SIGUSR2, Exit, Settle 1 (Fulfilled Void)]))
     \<and> pending (run (handler example_env example_args)
        [SIGUSR2, Exit, Settle 1 (Fulfilled Void)]) = [(0, AwaitReload)]"
    by (simp add: ex_simps)
  have c: "count_list [SIGUSR2, Exit, Settle 1 (Fulfilled Void)] Exit \<le> 1" by simp
  have d: "trace (step (run (handler example_env example_args) [SIGUSR2]) Exit) =
       trace (run (handler example_env example_args) [SIGUSR2]) @
       [Unguard, RpcCall ''shutdown'' Undefined]"
    using shutdown_awaited [OF h, of "[SIGUSR2]"] a by simp
  have p: "\<not> ended (run (handler example_env example_args) [SIGUSR2, Exit])
     \<and> map_of (pending (run (handler example_env example_args) [SIGUSR2, Exit])) 1 =
         Some AwaitShutdown
     \<and> fst (calls_of (trace (run (handler example_env example_args) [SIGUSR2, Exit])) ! 1) =
         ''shutdown''"
    by (simp add: ex_simps)
  have q: "trace (step (run (handler example_env example_args) [SIGUSR2, Exit])
        (Settle 1 (Fulfilled Void))) =
       trace (run (handler example_env example_args) [SIGUSR2, Exit]) @
       [RpcSettled 1 (Fulfilled Void), Resolve, Return]
     \<and> trace (step (run (handler example_env example_args) [SIGUSR2, Exit])
        (Settle 1 (Rejected ''busy''))) =
       trace (run (handler example_env example_args) [SIGUSR2, Exit]) @
       [RpcSettled 1 (Rejected ''busy''), OnExitRejected ''busy'']"
    using shutdown_awaited [OF h, where evs = "[SIGUSR2, Exit]" and k = 1 and c = AwaitShutdown
        and r = Void and e = "''busy''"] p
    by simp
  from shutdown_awaited [OF h, of "[SIGUSR2, Exit, Settle 1 (Fulfilled Void)]"] h a b c d q
  show ?thesis by blast
qed

text \<open>
  The first existing candidate is not what the code takes when the injected path is
  defined and is not on the disk while the packaged worker is.
\<close>

theorem workerPath_first_existing_counterexample:
  "first_existing {''/dist/worker.js''}
     (candidates (Some ''/build/worker.js'') ''/dist/worker.js'' ''/src/worker.ts'')
   \<noteq> Some (workerPath (Some ''/build/worker.js'') {''/dist/worker.js''}
             ''/dist/worker.js'' ''/src/worker.ts'')"
  by (simp add: candidates_def workerPath_def)

text \<open>
  Claim C6, as the code has it. The injected path is used whenever it is defined, with
  no look at the disk; otherwise the packaged path when it exists on the disk; otherwise
  the development path, again with no look at the disk. When the injected path, if
  there is one, and the development path exist, this is the first existing candidate.
  The handler asks the disk at most once, and the one worker it creates is given this
  path.
\<close>

theorem worker_location:
  "(OPENCODE_WORKER_PATH env = Some p \<longrightarrow> handler_workerPath env = p)
   \<and> (OPENCODE_WORKER_PATH env = None \<and> distWorker env \<in> disk env \<longrightarrow>
        handler_workerPath env = distWorker env)
   \<and> (OPENCODE_WORKER_PATH env = None \<and> distWorker env \<notin> disk env \<longrightarrow>
        handler_workerPath env = localWorker env)
   \<and> ((\<forall>q. OPENCODE_WORKER_PATH env = Some q \<longrightarrow> q \<in> disk env) \<and> localWorker env \<in> disk env \<longrightarrow>
        first_existing (disk env)
          (candidates (OPENCODE_WORKER_PATH env) (distWorker env) (localWorker env)) =
        Some (handler_workerPath env))
   \<and> (handler_cwd env a \<in> directories env \<longrightarrow>
        length (filter is_probe (trace (run (handler env a) evs))) \<le> 1 \<and>
        filter is_spawn (trace (run (handler env a) evs)) =
          [NewWorker (handler_workerPath env) (fromEntries (defined_entries (process_env env)))])"
proof -
  have rule: "(OPENCODE_WORKER_PATH env = Some p \<longrightarrow> handler_workerPath env = p)
     \<and> (OPENCODE_WORKER_PATH env = None \<and> distWorker env \<in> disk env \<longrightarrow>
          handler_workerPath env = distWorker env)
     \<and> (OPENCODE_WORKER_PATH env = None \<and> distWorker env \<notin> disk env \<longrightarrow>
          handler_workerPath env = localWorker env)"
    by (simp add: handler_workerPath_def workerPath_def)
  have first: "(\<forall>q. OPENCODE_WORKER_PATH env = Some q \<longrightarrow> q \<in> disk env) \<and> localWorker env \<in> disk env \<longrightarrow>
        first_existing (disk env)
          (candidates (OPENCODE_WORKER_PATH env) (distWorker env) (localWorker env)) =
        Some (handler_workerPath env)"
    by (cases "OPENCODE_WORKER_PATH env")
       (simp_all add: handler_workerPath_def workerPath_def candidates_def)
  have once: "handler_cwd env a \<in> directories env \<longrightarrow>
        length (filter is_probe (trace (run (handler env a) evs))) \<le> 1 \<and>
        filter is_spawn (trace (run (handler env a) evs)) =
          [NewWorker (handler_workerPath env) (fromEntries (defined_entries (process_env env)))]"
    by (simp add: probed_once spawned_once worker_probe_def split: option.splits)
  from rule first once show ?thesis by blast
qed

theorem worker_location_witness:
  "handler_workerPath example_env = ''/src/worker.ts''
   \<and> first_existing (disk example_env)
       (candidates (OPENCODE_WORKER_PATH example_env) (distWorker example_env)
          (localWorker example_env)) = Some ''/src/worker.ts''
   \<and> handler_workerPath (example_env\<lparr>OPENCODE_WORKER_PATH := Some ''/build/worker.js''\<rparr>) =
       ''/build/worker.js''
   \<and> handler_cwd example_env example_args \<in> directories example_env
   \<and> filter is_spawn (trace (run (handler example_env example_args) [SIGUSR2])) =
       [NewWorker ''/src/worker.ts'' [(''HOME'', ''/home/u'')]]"
proof -
  have h: "handler_cwd example_env example_args \<in> directories example_env"
    by (simp add: ex_simps)
  have a: "OPENCODE_WORKER_PATH example_env = None \<and> distWorker example_env \<notin> disk example_env
     \<and> localWorker example_env = ''/src/worker.ts'' \<and> localWorker example_env \<in> disk example_env
     \<and> process_env example_env = [(''HOME'', Some ''/home/u''), (''EDITOR'', None)]"
    by (simp add: example_env_def)
  have b: "OPENCODE_WORKER_PATH (example_env\<lparr>OPENCODE_WORKER_PATH := Some ''/build/worker.js''\<rparr>) =
      Some ''/build/worker.js''"
    by simp
  from worker_location [of example_env "''/build/worker.js''" example_args "[SIGUSR2]"]
       worker_location [of "example_env\<lparr>OPENCODE_WORKER_PATH := Some ''/build/worker.js''\<rparr>"
          "''/build/worker.js''" example_args "[]"] h a b
  show ?thesis by (simp add: fromEntries_def example_env_def)
qed

text \<open>
  Claim C7. While the process runs, a SIGUSR2 adds exactly one \<^verbatim>\<open>reload\<close> call and
  nothing else; after any history that leaves the process running the number of
  \<^verbatim>\<open>reload\<close> calls is the number of signals; and the handler never creates a second
  worker: the trace holds the one \<^verbatim>\<open>new Worker\<close> of the start.
\<close>

theorem sigusr2_reload:
  assumes ok: "handler_cwd env a \<in> directories env"
  shows "(\<not> ended (run (handler env a) evs) \<longrightarrow>
            trace (step (run (handler env a) evs) SIGUSR2) =
              trace (run (handler env a) evs) @ [RpcCall ''reload'' Undefined])
       \<and> (\<not> ended (run (handler env a) evs) \<longrightarrow>
            method_count ''reload'' (trace (run (handler env a) evs)) = count_list evs SIGUSR2)
       \<and> filter is_spawn (trace (run (handler env a) evs)) =
            [NewWorker (handler_workerPath env) (fromEntries (defined_entries (process_env env)))]"
proof -
  let ?s = "run (handler env a) evs"
  have wf0: "wf (handler_cwd env a) (handler env a)" by (rule wf_handler [OF ok])
  then have "wf (handler_cwd env a) ?s" by (rule wf_run)
  then have L: "listeners ?s = handler_listeners" by (simp add: wf_def)
  have one: "\<not> ended ?s \<longrightarrow> trace (step ?s SIGUSR2) = trace ?s @ [RpcCall ''reload'' Undefined]"
    using L by (simp add: step_SIGUSR2)
  have count: "\<not> ended ?s \<longrightarrow> method_count ''reload'' (trace ?s) = count_list evs SIGUSR2"
    using reload_count [OF wf0, of evs] handler_no_calls_yet [OF ok] by simp
  from one count spawned_once [OF ok, of evs] show ?thesis by simp
qed

theorem sigusr2_reload_witness:
  "handler_cwd example_env example_args \<in> directories example_env
   \<and> \<not> ended (run (handler example_env example_args) [SIGUSR2, SIGUSR2, SIGUSR2])
   \<and> method_count ''reload'' (trace (run (handler example_env example_args) [SIGUSR2, SIGUSR2, SIGUSR2])) = 3
   \<and> filter is_spawn (trace (run (handler example_env example_args) [SIGUSR2, SIGUSR2, SIGUSR2])) =
       [NewWorker ''/src/worker.ts'' [(''HOME'', ''/home/u'')]]"
proof -
  have h: "handler_cwd example_env example_args \<in> directories example_env"
    by (simp add: ex_simps)
  have live: "\<not> ended (run (handler example_env example_args) [SIGUSR2, SIGUSR2, SIGUSR2])"
    by (simp add: ex_simps)
  from sigusr2_reload [OF h, of "[SIGUSR2, SIGUSR2, SIGUSR2]"] h live show ?thesis
    by (simp add: example_env_def handler_workerPath_def workerPath_def fromEntries_def)
qed

text \<open>
  Claim C8. A start in Direct mode starts the TUI and sets the timer to 1000 ms directly
  after it; a start in Server mode does both as soon as the \<^verbatim>\<open>server\<close> call is
  fulfilled. At any later time, once the TUI has been started there is exactly one
  timer, set directly after the start of the TUI with no \<^verbatim>\<open>checkUpgrade\<close> call before
  it, and either the timer is still set and no \<^verbatim>\<open>checkUpgrade\<close> call has been issued,
  or it has run out and exactly one has; before the start of the TUI there is neither.
  The timer running out issues the call for the working directory. When that call is
  rejected the process only takes note that it settled: nothing is logged or shown and
  the handler goes on.
\<close>

theorem checkUpgrade_background:
  assumes ok: "handler_cwd env a \<in> directories env"
  shows "(\<not> shouldStartServer (process_argv env) (resolved_network_options env) \<longrightarrow>
            trace (handler env a) =
              startup env a @
              [Tui \<lparr>tui_url = ''http://opencode.internal'', tui_fetch = Some WorkerFetch,
                     tui_events = Some WorkerEvents, tui_continue = continue a,
                     tui_sessionID = session a, tui_agent = agent a, tui_model = model a,
                     tui_prompt = handler_prompt env a\<rparr>,
               SetTimeout 1000] \<and>
            timer (handler env a) = Some (handler_cwd env a) \<and> tui_up (handler env a))
       \<and> (shouldStartServer (process_argv env) (resolved_network_options env) \<longrightarrow>
            pending (handler env a) =
              [(0, AwaitServer a (handler_prompt env a) (handler_cwd env a))] \<and>
            \<not> tui_up (handler env a))
       \<and> (\<not> ended (run (handler env a) evs) \<and>
          map_of (pending (run (handler env a) evs)) k = Some (AwaitServer a' p' d) \<longrightarrow>
            step (run (handler env a) evs) (Settle k (Fulfilled (ServerOutput u))) =
              (run (handler env a) evs)
                \<lparr>trace := trace (run (handler env a) evs) @
                   [RpcSettled k (Fulfilled (ServerOutput u)),
                    Tui \<lparr>tui_url = u, tui_fetch = None, tui_events = None,
                          tui_continue = continue a', tui_sessionID = session a',
                          tui_agent = agent a', tui_model = model a', tui_prompt = p'\<rparr>,
                    SetTimeout 1000],
                 pending := AList.delete k (pending (run (handler env a) evs)),
                 timer := Some (handler_cwd env a),
                 tui_up := True\<rparr>)
       \<and> (tui_up (run (handler env a) evs) \<longrightarrow>
            length (filter is_timeout (trace (run (handler env a) evs))) = 1 \<and>
            (\<exists>pre i post. trace (run (handler env a) evs) = pre @ [Tui i, SetTimeout 1000] @ post \<and>
               method_count ''checkUpgrade'' pre = 0) \<and>
            (timer (run (handler env a) evs) = Some (handler_cwd env a) \<and>
               method_count ''checkUpgrade'' (trace (run (handler env a) evs)) = 0
             \<or> timer (run (handler env a) evs) = None \<and>
               method_count ''checkUpgrade'' (trace (run (handler env a) evs)) = 1))
       \<and> (\<not> tui_up (run (handler env a) evs) \<longrightarrow>
            filter is_timeout (trace (run (handler env a) evs)) = [] \<and>
            method_count ''checkUpgrade'' (trace (run (handler env a) evs)) = 0)
       \<and> method_count ''checkUpgrade'' (trace (run (handler env a) evs)) \<le> 1
       \<and> (\<not> ended (run (handler env a) evs) \<and> timer (run (handler env a) evs) \<noteq> None \<longrightarrow>
            trace (step (run (handler env a) evs) Timeout) =
              trace (run (handler env a) evs) @
              [RpcCall ''checkUpgrade'' (CheckUpgradeInput (handler_cwd env a))] \<and>
            timer (step (run (handler env a) evs) Timeout) = None)
       \<and> (\<not> ended (run (handler env a) evs) \<and>
          map_of (pending (run (handler env a) evs)) k = Some c \<and>
          fst (calls_of (trace (run (handler env a) evs)) ! k) = ''checkUpgrade'' \<longrightarrow>
            step (run (handler env a) evs) (Settle k (Rejected e)) =
              (run (handler env a) evs)
                \<lparr>trace := trace (run (handler env a) evs) @ [RpcSettled k (Rejected e)],
                  pending := AList.delete k (pending (run (handler env a) evs))\<rparr>)"
proof -
  let ?s = "run (handler env a) evs"
  have "wf (handler_cwd env a) (handler env a)" by (rule wf_handler [OF ok])
  then have "wf (handler_cwd env a) ?s" by (rule wf_run)
  then have C: "calls_ok ?s" and La: "launch_ok (handler_cwd env a) ?s" and O: "order_ok ?s"
    by (simp_all add: wf_def)
  have direct: "\<not> shouldStartServer (process_argv env) (resolved_network_options env) \<longrightarrow>
      trace (handler env a) =
        startup env a @
        [Tui \<lparr>tui_url = ''http://opencode.internal'', tui_fetch = Some WorkerFetch,
               tui_events = Some WorkerEvents, tui_continue = continue a,
               tui_sessionID = session a, tui_agent = agent a, tui_model = model a,
               tui_prompt = handler_prompt env a\<rparr>,
         SetTimeout 1000] \<and>
      timer (handler env a) = Some (handler_cwd env a) \<and> tui_up (handler env a)"
    using ok by (simp add: handler_direct)
  have server: "shouldStartServer (process_argv env) (resolved_network_options env) \<longrightarrow>
      pending (handler env a) = [(0, AwaitServer a (handler_prompt env a) (handler_cwd env a))] \<and>
      \<not> tui_up (handler env a)"
    using ok by (simp add: handler_server initial_def)
  have answered: "\<not> ended ?s \<and> map_of (pending ?s) k = Some (AwaitServer a' p' d) \<longrightarrow>
      step ?s (Settle k (Fulfilled (ServerOutput u))) =
        ?s\<lparr>trace := trace ?s @
             [RpcSettled k (Fulfilled (ServerOutput u)),
              Tui \<lparr>tui_url = u, tui_fetch = None, tui_events = None,
                    tui_continue = continue a', tui_sessionID = session a',
                    tui_agent = agent a', tui_model = model a', tui_prompt = p'\<rparr>,
              SetTimeout 1000],
           pending := AList.delete k (pending ?s),
           timer := Some (handler_cwd env a),
           tui_up := True\<rparr>"
  proof (intro impI, elim conjE)
    assume live: "\<not> ended ?s" and p: "map_of (pending ?s) k = Some (AwaitServer a' p' d)"
    from p have "(k, AwaitServer a' p' d) \<in> set (pending ?s)" by (rule map_of_SomeD)
    with La have "d = handler_cwd env a" by (auto simp: launch_ok_def)
    with step_server_fulfilled [OF live p, of u]
    show "step ?s (Settle k (Fulfilled (ServerOutput u))) =
        ?s\<lparr>trace := trace ?s @
             [RpcSettled k (Fulfilled (ServerOutput u)),
              Tui \<lparr>tui_url = u, tui_fetch = None, tui_events = None,
                    tui_continue = continue a', tui_sessionID = session a',
                    tui_agent = agent a', tui_model = model a', tui_prompt = p'\<rparr>,
              SetTimeout 1000],
           pending := AList.delete k (pending ?s),
           timer := Some (handler_cwd env a),
           tui_up := True\<rparr>"
      by simp
  qed
  have up: "tui_up ?s \<longrightarrow>
      length (filter is_timeout (trace ?s)) = 1 \<and>
      (\<exists>pre i post. trace ?s = pre @ [Tui i, SetTimeout 1000] @ post \<and>
         method_count ''checkUpgrade'' pre = 0) \<and>
      (timer ?s = Some (handler_cwd env a) \<and> method_count ''checkUpgrade'' (trace ?s) = 0
       \<or> timer ?s = None \<and> method_count ''checkUpgrade'' (trace ?s) = 1)"
    using La O by (auto simp: launch_ok_def order_ok_def)
  have down: "\<not> tui_up ?s \<longrightarrow>
      filter is_timeout (trace ?s) = [] \<and> method_count ''checkUpgrade'' (trace ?s) = 0"
    using La by (auto simp: launch_ok_def split: if_splits)
  have most: "method_count ''checkUpgrade'' (trace ?s) \<le> 1"
    using La by (auto simp: launch_ok_def split: if_splits)
  have fire: "\<not> ended ?s \<and> timer ?s \<noteq> None \<longrightarrow>
      trace (step ?s Timeout) =
        trace ?s @ [RpcCall ''checkUpgrade'' (CheckUpgradeInput (handler_cwd env a))] \<and>
      timer (step ?s Timeout) = None"
  proof (intro impI, elim conjE)
    assume live: "\<not> ended ?s" and t: "timer ?s \<noteq> None"
    from La t have "timer ?s = Some (handler_cwd env a)" by (simp add: launch_ok_def)
    with live show "trace (step ?s Timeout) =
        trace ?s @ [RpcCall ''checkUpgrade'' (CheckUpgradeInput (handler_cwd env a))] \<and>
        timer (step ?s Timeout) = None"
      by (simp add: step_Timeout)
  qed
  have swallow: "\<not> ended ?s \<and> map_of (pending ?s) k = Some c \<and>
      fst (calls_of (trace ?s) ! k) = ''checkUpgrade'' \<longrightarrow>
      step ?s (Settle k (Rejected e)) =
        ?s\<lparr>trace := trace ?s @ [RpcSettled k (Rejected e)], pending := AList.delete k (pending ?s)\<rparr>"
  proof (intro impI, elim conjE)
    assume live: "\<not> ended ?s" and p: "map_of (pending ?s) k = Some c"
      and m: "fst (calls_of (trace ?s) ! k) = ''checkUpgrade''"
    from p have "(k, c) \<in> set (pending ?s)" by (rule map_of_SomeD)
    with C m have "cont_method c = ''checkUpgrade''" by (auto simp: calls_ok_def)
    then have "c = CatchCheckUpgrade" by (cases c) simp_all
    with live p show "step ?s (Settle k (Rejected e)) =
        ?s\<lparr>trace := trace ?s @ [RpcSettled k (Rejected e)], pending := AList.delete k (pending ?s)\<rparr>"
      by (simp add: step_Settle)
  qed
  from direct server answered up down most fire swallow show ?thesis by blast
qed

theorem checkUpgrade_background_witness:
  "handler_cwd example_env example_args \<in> directories example_env
   \<and> tui_up (run (handler example_env example_args) [])
   \<and> length (filter is_timeout (trace (run (handler example_env example_args) []))) = 1
   \<and> trace (step (run (handler example_env example_args) []) Timeout) =
       trace (run (handler example_env example_args) []) @
       [RpcCall ''checkUpgrade'' (CheckUpgradeInput ''/home/u'')]
   \<and> step (run (handler example_env example_args) [Timeout]) (Settle 0 (Rejected ''offline'')) =
       (run (handler example_env example_args) [Timeout])
         \<lparr>trace := trace (run (handler example_env example_args) [Timeout]) @
            [RpcSettled 0 (Rejected ''offline'')],
          pending := AList.delete 0 (pending (run (handler example_env example_args) [Timeout]))\<rparr>
   \<and> handler_cwd example_server_env example_args \<in> directories example_server_env
   \<and> shouldStartServer (process_argv example_server_env)
        (resolved_network_options example_server_env)
   \<and> \<not> tui_up (handler example_server_env example_args)
   \<and> filter is_timeout (trace (run (handler example_server_env example_args) [])) = []
   \<and> trace (step (run (handler example_server_env example_args) [])
        (Settle 0 (Fulfilled (ServerOutput ''http://127.0.0.1:4096'')))) =
       trace (run (handler example_server_env example_args) []) @
       [RpcSettled 0 (Fulfilled (ServerOutput ''http://127.0.0.1:4096'')),
        Tui \<lparr>tui_url = ''http://127.0.0.1:4096'', tui_fetch = None, tui_events = None,
              tui_continue = None, tui_sessionID = None, tui_agent = None, tui_model = None,
              tui_prompt = None\<rparr>,
        SetTimeout 1000]
   \<and> tui_up (run (handler example_server_env example_args)
        [Settle 0 (Fulfilled (ServerOutput ''http://127.0.0.1:4096''))])
   \<and> length (filter is_timeout (trace (run (handler example_server_env example_args)
        [Settle 0 (Fulfilled (ServerOutput ''http://127.0.0.1:4096''))]))) = 1"
proof -
  have h: "handler_cwd example_env example_args \<in> directories example_env"
    by (simp add: ex_simps)
  have a: "tui_up (run (handler example_env example_args) [])
     \<and> \<not> ended (run (handler example_env example_args) [])
     \<and> timer (run (handler example_env example_args) []) \<noteq> None"
    by (simp add: ex_simps)
  have b: "\<not> ended (run (handler example_env example_args) [Timeout])
     \<and> map_of (pending (run (handler example_env example_args) [Timeout])) 0 = Some CatchCheckUpgrade
     \<and> fst (calls_of (trace (run (handler example_env example_args) [Timeout])) ! 0) = ''checkUpgrade''"
    by (simp add: ex_simps)
  have c: "handler_cwd example_env example_args = ''/home/u''"
    by (simp add: ex_simps)
  have hs: "handler_cwd example_server_env example_args \<in> directories example_server_env"
    by (simp add: example_server_env_def ex_simps)
  have srv: "shouldStartServer (process_argv example_server_env)
      (resolved_network_options example_server_env)"
    by (simp add: example_server_env_def ex_simps)
  have p: "\<not> ended (run (handler example_server_env example_args) [])
     \<and> map_of (pending (run (handler example_server_env example_args) [])) 0 =
         Some (AwaitServer example_args None ''/home/u'')"
    by (simp add: example_server_env_def ex_simps)
  have q: "tui_up (run (handler example_server_env example_args)
        [Settle 0 (Fulfilled (ServerOutput ''http://127.0.0.1:4096''))])"
    by (simp add: example_server_env_def ex_simps)
  have f: "continue example_args = None \<and> session example_args = None \<and>
      agent example_args = None \<and> model example_args = None"
    by (simp add: example_args_def)
  have direct: "length (filter is_timeout (trace (run (handler example_env example_args) []))) = 1
     \<and> trace (step (run (handler example_env example_args) []) Timeout) =
       trace (run (handler example_env example_args) []) @
       [RpcCall ''checkUpgrade'' (CheckUpgradeInput ''/home/u'')]"
    using checkUpgrade_background [OF h, of "[]" 0 example_args None "''/home/u''"
        "''http://127.0.0.1:4096''" CatchCheckUpgrade "''offline''"] a c
    by simp
  have swallowed: "step (run (handler example_env example_args) [Timeout])
       (Settle 0 (Rejected ''offline'')) =
       (run (handler example_env example_args) [Timeout])
         \<lparr>trace := trace (run (handler example_env example_args) [Timeout]) @
            [RpcSettled 0 (Rejected ''offline'')],
          pending := AList.delete 0 (pending (run (handler example_env example_args) [Timeout]))\<rparr>"
    using checkUpgrade_background [OF h, of "[Timeout]" 0 example_args None "''/home/u''"
        "''http://127.0.0.1:4096''" CatchCheckUpgrade "''offline''"] b
    by blast
  have waits: "\<not> tui_up (handler example_server_env example_args)
     \<and> filter is_timeout (trace (run (handler example_server_env example_args) [])) = []"
    using checkUpgrade_background [OF hs, of "[]" 0 example_args None "''/home/u''"
        "''http://127.0.0.1:4096''" CatchCheckUpgrade "''offline''"] srv
    by simp
  have launched: "trace (step (run (handler example_server_env example_args) [])
        (Settle 0 (Fulfilled (ServerOutput ''http://127.0.0.1:4096'')))) =
       trace (run (handler example_server_env example_args) []) @
       [RpcSettled 0 (Fulfilled (ServerOutput ''http://127.0.0.1:4096'')),
        Tui \<lparr>tui_url = ''http://127.0.0.1:4096'', tui_fetch = None, tui_events = None,
              tui_continue = None, tui_sessionID = None, tui_agent = None, tui_model = None,
              tui_prompt = None\<rparr>,
        SetTimeout 1000]"
    using checkUpgrade_background [OF hs, of "[]" 0 example_args None "''/home/u''"
        "''http://127.0.0.1:4096''" CatchCheckUpgrade "''offline''"] p f
    by simp
  have scheduled: "length (filter is_timeout (trace (run (handler example_server_env example_args)
        [Settle 0 (Fulfilled (ServerOutput ''http://127.0.0.1:4096''))]))) = 1"
    using checkUpgrade_background [OF hs,
        of "[Settle 0 (Fulfilled (ServerOutput ''http://127.0.0.1:4096''))]" 0 example_args None
        "''/home/u''" "''http://127.0.0.1:4096''" CatchCheckUpgrade "''offline''"] q
    by blast
  from h a hs srv q direct swallowed waits launched scheduled show ?thesis by blast
qed

text \<open>
  Claim C9. When \<^verbatim>\<open>process.chdir\<close> fails, all the handler ever does is look for the
  worker path, try the change of directory, report \<^verbatim>\<open>Failed to change directory to\<close>
  with the path, and return: no worker is created, no call is issued, no listener is
  added, no timer is set and the TUI is not started, whatever happens afterwards.
\<close>

theorem chdir_failure_returns:
  assumes "handler_cwd env a \<notin> directories env"
  shows "trace (run (handler env a) evs) =
           worker_probe env @
           [Chdir (handler_cwd env a),
            UIError (''Failed to change directory to '' @ handler_cwd env a), Return]
       \<and> filter is_spawn (trace (run (handler env a) evs)) = []
       \<and> calls_of (trace (run (handler env a) evs)) = []
       \<and> listeners (run (handler env a) evs) = listeners initial
       \<and> \<not> tui_up (run (handler env a) evs)
       \<and> timer (run (handler env a) evs) = None"
  unfolding handler_failed [OF assms]
  by (simp add: initial_def worker_probe_def split: option.splits)

theorem chdir_failure_returns_witness:
  "handler_cwd example_env (example_args\<lparr>project := Some ''missing''\<rparr>) \<notin> directories example_env
   \<and> trace (run (handler example_env (example_args\<lparr>project := Some ''missing''\<rparr>))
        [SIGUSR2, Timeout, Exit]) =
       [FileExists ''/dist/worker.js'', Chdir ''/home/u/missing'',
        UIError ''Failed to change directory to /home/u/missing'', Return]"
proof -
  have h: "handler_cwd example_env (example_args\<lparr>project := Some ''missing''\<rparr>) \<notin> directories example_env"
    by (simp add: ex_simps)
  from chdir_failure_returns [OF h, of "[SIGUSR2, Timeout, Exit]"] h show ?thesis
    by (simp add: ex_simps)
qed

text \<open>
  Claim C10. When the renderer has no selection, or the selected text is empty,
  \<^verbatim>\<open>Selection.copy\<close> returns false and calls nothing: no clipboard write, no toast, no
  clearing of the selection. When the selected text is not empty it starts the
  clipboard write with that text, clears the selection and returns true.
\<close>

theorem copy_frame:
  "(getSelection renderer = None \<longrightarrow> copy renderer = (False, []))
   \<and> (getSelection renderer = Some sel \<and> getSelectedText sel = [] \<longrightarrow>
        copy renderer = (False, []))
   \<and> (getSelection renderer = Some sel \<and> getSelectedText sel \<noteq> [] \<longrightarrow>
        copy renderer = (True, [ClipboardCopy (getSelectedText sel), ClearSelection]))"
  by (simp add: copy_def)

theorem copy_frame_witness:
  "copy \<lparr>getSelection = None\<rparr> = (False, [])
   \<and> copy \<lparr>getSelection = Some \<lparr>getSelectedText = []\<rparr>\<rparr> = (False, [])
   \<and> copy \<lparr>getSelection = Some \<lparr>getSelectedText = ''abc''\<rparr>\<rparr> =
       (True, [ClipboardCopy ''abc'', ClearSelection])"
  using copy_frame [of "\<lparr>getSelection = None\<rparr>" "\<lparr>getSelectedText = []\<rparr>"]
        copy_frame [of "\<lparr>getSelection = Some \<lparr>getSelectedText = []\<rparr>\<rparr>" "\<lparr>getSelectedText = []\<rparr>"]
        copy_frame [of "\<lparr>getSelection = Some \<lparr>getSelectedText = ''abc''\<rparr>\<rparr>" "\<lparr>getSelectedText = ''abc''\<rparr>"]
  by simp

end
